theory Spec2Isabelle
  imports Main "HOL-Library.AList" "HOL-Library.Sublist"
begin

section \<open>External collaborators\<close>

text \<open>
  The CRDT library (\<^verbatim>\<open>yjs\<close>) is consumed, not implemented, by this repository. Its
  operations are taken as parameters: a value of the record below stands for the library,
  and the theorems hold for every such value. \<open>'d\<close> is the content of a replica, \<open>'u\<close> an
  encoded update, \<open>'v\<close> an encoded state vector. \<open>applyUpdate\<close> returns the new content and
  the payload of the \<^verbatim>\<open>update\<close> event the replica fires (\<open>None\<close> when it fires none).
\<close>

record ('d, 'u, 'v) yjs =
  encodeStateVector :: "'d \<Rightarrow> 'v"
  encodeStateAsUpdate :: "'d \<Rightarrow> 'v option \<Rightarrow> 'u"
  applyUpdate :: "'d \<Rightarrow> 'u \<Rightarrow> 'd \<times> 'u option"
  mergeUpdates :: "'u list \<Rightarrow> 'u"
  newDoc :: 'd

text \<open>
  An awareness store (\<^verbatim>\<open>y-protocols/awareness\<close>) keeps a JavaScript \<^verbatim>\<open>Map\<close> from client
  ids to presence states; a \<^verbatim>\<open>Map\<close> is an association list with distinct keys, in
  insertion order. A presence state is its JSON text. An encoded awareness update lists,
  for each requested client, its current state (\<open>None\<close> when it has none); the clocks of the
  library's encoding are left out.
\<close>

type_synonym awareness_states = "(nat \<times> string) list"
type_synonym awareness_update = "(nat \<times> string option) list"

definition encodeAwarenessUpdate :: "awareness_states \<Rightarrow> nat list \<Rightarrow> awareness_update" where
  "encodeAwarenessUpdate states clients = map (\<lambda>c. (c, map_of states c)) clients"

text \<open>
  \<^verbatim>\<open>removeAwarenessStates(awareness, clients, origin)\<close> deletes every listed client that has
  an entry and returns the clients it removed, in the order of the list.
\<close>

fun removeAwarenessStates :: "awareness_states \<Rightarrow> nat list \<Rightarrow> awareness_states \<times> nat list" where
  "removeAwarenessStates states [] = (states, [])"
| "removeAwarenessStates states (c # cs) =
     (if map_of states c \<noteq> None
      then (let (states', removed) = removeAwarenessStates (AList.delete c states) cs
            in (states', c # removed))
      else removeAwarenessStates states cs)"

section \<open>The client: \<^verbatim>\<open>SocketIOProvider\<close> (src/client/provider.ts)\<close>

datatype conn_status = Connecting | Connected | Disconnected

text \<open>The second argument of an \<^verbatim>\<open>update\<close> handler: is the origin this provider?\<close>

datatype origin = This_provider | Other_origin

datatype ('u, 'v) bc_message =
    Bc_sync_step_1 'v
  | Bc_sync_step_2 'u
  | Bc_sync_update 'u
  | Bc_query_awareness
  | Bc_awareness_update awareness_update

text \<open>
  What a provider does to the outside, in the order it does it: the events it emits as an
  \<^verbatim>\<open>Observable\<close>, the calls it makes on its socket and on the broadcast channel, and the
  calls of the user's \<^verbatim>\<open>onPending\<close> and of the acknowledgment callback \<^verbatim>\<open>syncStep2\<close>.
\<close>

datatype ('u, 'v) client_event =
    Emit_status conn_status
  | Emit_synced bool
  | Emit_sync bool
  | Emit_connection_close string
  | Emit_connection_error string
  | Socket_connect
  | Socket_disconnect
  | Socket_emit_sync_step_1 'v
  | Socket_emit_sync_update 'u
  | Socket_emit_awareness_update awareness_update
  | Bc_subscribe
  | Bc_unsubscribe
  | Bc_publish "('u, 'v) bc_message"
  | On_pending bool
  | SyncStep2_ack 'u
  | Remove_unload_listener
  | Awareness_destroy
  | Observable_destroy

text \<open>
  Timers are handles into the table of the timers that are armed: \<^verbatim>\<open>setTimeout\<close> and
  \<^verbatim>\<open>setInterval\<close> add an entry under a fresh handle, \<^verbatim>\<open>clearTimeout\<close> and
  \<^verbatim>\<open>clearInterval\<close> delete the entry of a handle (nothing happens when it has none), and a
  timeout that fires leaves the table. An entry records which callback the timer runs and
  the delay it was given (\<open>None\<close> for \<^verbatim>\<open>undefined\<close>).
\<close>

datatype timer = Flush_timeout "int option" | Resync_interval int

record ('d, 'u, 'v) provider =
  debounceTime :: "int option"
  updateTimer :: "nat option"
  onPending :: bool
  pendingUpdates :: "'u list"
  doc :: 'd
  clientID :: nat
  awareness_clientID :: nat
  awareness_states :: awareness_states
  awareness_listening :: bool
  doc_listening :: bool
  disableBc :: bool
  bcconnected :: bool
  synced :: bool
  resyncInterval :: "nat option"
  cfg_resyncInterval :: int
  socket_connected :: bool
  timers :: "(nat \<times> timer) list"
  next_timer :: nat
  out :: "('u, 'v) client_event list"

definition emit :: "('u, 'v) client_event \<Rightarrow> ('d, 'u, 'v) provider \<Rightarrow> ('d, 'u, 'v) provider" where
  "emit e p = p\<lparr>out := out p @ [e]\<rparr>"

definition setTimer :: "timer \<Rightarrow> ('d, 'u, 'v) provider \<Rightarrow> nat \<times> ('d, 'u, 'v) provider" where
  "setTimer t p =
     (next_timer p, p\<lparr>timers := timers p @ [(next_timer p, t)], next_timer := Suc (next_timer p)\<rparr>)"

definition clearTimer :: "nat \<Rightarrow> ('d, 'u, 'v) provider \<Rightarrow> ('d, 'u, 'v) provider" where
  "clearTimer h p = p\<lparr>timers := AList.delete h (timers p)\<rparr>"

text \<open>The setter of \<^verbatim>\<open>synced\<close>.\<close>

definition set_synced :: "bool \<Rightarrow> ('d, 'u, 'v) provider \<Rightarrow> ('d, 'u, 'v) provider" where
  "set_synced state p =
     (if synced p \<noteq> state
      then emit (Emit_sync state) (emit (Emit_synced state) (p\<lparr>synced := state\<rparr>))
      else p)"

text \<open>\<^verbatim>\<open>this.onPending?.(pending)\<close>: the call is made when a callback is registered.\<close>

definition call_onPending :: "bool \<Rightarrow> ('d, 'u, 'v) provider \<Rightarrow> ('d, 'u, 'v) provider" where
  "call_onPending pending p = (if onPending p then emit (On_pending pending) p else p)"

definition onUpdateDocInner :: "'u \<Rightarrow> ('d, 'u, 'v) provider \<Rightarrow> ('d, 'u, 'v) provider" where
  "onUpdateDocInner update p =
     (let p1 = emit (Socket_emit_sync_update update) p
      in if bcconnected p1 then emit (Bc_publish (Bc_sync_update update)) p1 else p1)"

text \<open>
  The handler of the replica's \<^verbatim>\<open>update\<close> event. It ends by arming the flush timeout
  with \<^verbatim>\<open>this.debounceTime\<close> as its delay and storing the handle in \<^verbatim>\<open>updateTimer\<close>.
\<close>

definition onUpdateDoc :: "'u \<Rightarrow> origin \<Rightarrow> ('d, 'u, 'v) provider \<Rightarrow> ('d, 'u, 'v) provider" where
  "onUpdateDoc update orig p =
     (if orig = This_provider then p
      else
        let p1 = (if debounceTime p \<noteq> None then onUpdateDocInner update p else p);
            p2 = (case updateTimer p1 of
                    Some h \<Rightarrow>
                      clearTimer h
                        ((call_onPending True p1)\<lparr>pendingUpdates := pendingUpdates p1 @ [update]\<rparr>)
                  | None \<Rightarrow> p1\<lparr>pendingUpdates := [update]\<rparr>);
            (h', p3) = setTimer (Flush_timeout (debounceTime p2)) p2
        in p3\<lparr>updateTimer := Some h'\<rparr>)"

text \<open>The callback of the flush timeout.\<close>

definition flush_callback :: "('d, 'u, 'v) yjs \<Rightarrow> ('d, 'u, 'v) provider \<Rightarrow> ('d, 'u, 'v) provider" where
  "flush_callback Y p =
     (let mergedUpdate = mergeUpdates Y (pendingUpdates p);
          p1 = onUpdateDocInner mergedUpdate p;
          p2 = call_onPending False p1
      in p2\<lparr>updateTimer := None\<rparr>)"

text \<open>The callback of the resync interval.\<close>

definition resync_callback :: "('d, 'u, 'v) yjs \<Rightarrow> ('d, 'u, 'v) provider \<Rightarrow> ('d, 'u, 'v) provider" where
  "resync_callback Y p =
     (if \<not> socket_connected p then p
      else emit (Socket_emit_sync_step_1 (encodeStateVector Y (doc p))) p)"

text \<open>
  The event loop fires the timer of a handle: nothing when the handle is not armed; a
  timeout leaves the table and runs its callback; an interval runs its callback and stays.
\<close>

definition fire_timer :: "('d, 'u, 'v) yjs \<Rightarrow> nat \<Rightarrow> ('d, 'u, 'v) provider \<Rightarrow> ('d, 'u, 'v) provider" where
  "fire_timer Y h p =
     (case map_of (timers p) h of
        None \<Rightarrow> p
      | Some (Flush_timeout _) \<Rightarrow> flush_callback Y (clearTimer h p)
      | Some (Resync_interval _) \<Rightarrow> resync_callback Y p)"

text \<open>
  \<^verbatim>\<open>Y.applyUpdate(this.doc, update, this)\<close>: the replica takes the update and fires its
  \<^verbatim>\<open>update\<close> event with this provider as the origin, which \<open>onUpdateDoc\<close> receives while
  it is registered.
\<close>

definition apply_remote :: "('d, 'u, 'v) yjs \<Rightarrow> 'u \<Rightarrow> ('d, 'u, 'v) provider \<Rightarrow> ('d, 'u, 'v) provider" where
  "apply_remote Y update p =
     (let (d', fired) = applyUpdate Y (doc p) update;
          p1 = p\<lparr>doc := d'\<rparr>
      in case fired of
           Some u' \<Rightarrow> (if doc_listening p1 then onUpdateDoc u' This_provider p1 else p1)
         | None \<Rightarrow> p1)"

definition onSocketSyncUpdate :: "('d, 'u, 'v) yjs \<Rightarrow> 'u \<Rightarrow> ('d, 'u, 'v) provider \<Rightarrow> ('d, 'u, 'v) provider" where
  "onSocketSyncUpdate Y update p = apply_remote Y update p"

text \<open>The listener of \<^verbatim>\<open>sync-step-1\<close> that \<^verbatim>\<open>initSyncListeners\<close> registers.\<close>

definition on_sync_step_1 :: "('d, 'u, 'v) yjs \<Rightarrow> 'v \<Rightarrow> ('d, 'u, 'v) provider \<Rightarrow> ('d, 'u, 'v) provider" where
  "on_sync_step_1 Y stateVector p =
     set_synced True (emit (SyncStep2_ack (encodeStateAsUpdate Y (doc p) (Some stateVector))) p)"

text \<open>The handler of the awareness store's \<^verbatim>\<open>update\<close> event.\<close>

definition awarenessUpdate :: "nat list \<Rightarrow> ('d, 'u, 'v) provider \<Rightarrow> ('d, 'u, 'v) provider" where
  "awarenessUpdate changedClients p =
     (let p1 = emit (Socket_emit_awareness_update
                       (encodeAwarenessUpdate (awareness_states p) changedClients)) p
      in if bcconnected p1
         then emit (Bc_publish (Bc_awareness_update
                       (encodeAwarenessUpdate (awareness_states p1) changedClients))) p1
         else p1)"

text \<open>
  \<^verbatim>\<open>AwarenessProtocol.removeAwarenessStates(this.awareness, clients, this)\<close> on the
  provider's store: the store fires \<^verbatim>\<open>update\<close> when at least one client was removed.
\<close>

definition remove_awareness :: "nat list \<Rightarrow> ('d, 'u, 'v) provider \<Rightarrow> ('d, 'u, 'v) provider" where
  "remove_awareness clients p =
     (let (states', removed) = removeAwarenessStates (awareness_states p) clients;
          p1 = p\<lparr>awareness_states := states'\<rparr>
      in if removed \<noteq> [] \<and> awareness_listening p1 then awarenessUpdate removed p1 else p1)"

definition onSocketDisconnection :: "string \<Rightarrow> ('d, 'u, 'v) provider \<Rightarrow> ('d, 'u, 'v) provider" where
  "onSocketDisconnection event p =
     (let p1 = emit (Emit_connection_close event) p;
          p2 = set_synced False p1;
          p3 = remove_awareness
                 (filter (\<lambda>client. client \<noteq> clientID p2) (map fst (awareness_states p2))) p2
      in emit (Emit_status Disconnected) p3)"

definition onSocketConnectionError :: "string \<Rightarrow> ('d, 'u, 'v) provider \<Rightarrow> ('d, 'u, 'v) provider" where
  "onSocketConnectionError error p = emit (Emit_connection_error error) p"

definition connectBc :: "('d, 'u, 'v) yjs \<Rightarrow> ('d, 'u, 'v) provider \<Rightarrow> ('d, 'u, 'v) provider" where
  "connectBc Y p =
     (let p1 = (if \<not> bcconnected p then (emit Bc_subscribe p)\<lparr>bcconnected := True\<rparr> else p);
          p2 = emit (Bc_publish (Bc_sync_step_1 (encodeStateVector Y (doc p1)))) p1;
          p3 = emit (Bc_publish (Bc_sync_step_2 (encodeStateAsUpdate Y (doc p2) None))) p2;
          p4 = emit (Bc_publish Bc_query_awareness) p3
      in emit (Bc_publish (Bc_awareness_update
                 (encodeAwarenessUpdate (awareness_states p4) [clientID p4]))) p4)"

definition disconnectBc :: "('d, 'u, 'v) provider \<Rightarrow> ('d, 'u, 'v) provider" where
  "disconnectBc p =
     (let p1 = emit (Bc_publish (Bc_awareness_update (encodeAwarenessUpdate [] [clientID p]))) p
      in if bcconnected p1 then (emit Bc_unsubscribe p1)\<lparr>bcconnected := False\<rparr> else p1)"

definition connect :: "('d, 'u, 'v) yjs \<Rightarrow> ('d, 'u, 'v) provider \<Rightarrow> ('d, 'u, 'v) provider" where
  "connect Y p =
     (if \<not> socket_connected p
      then
        let p1 = emit (Emit_status Connecting) p;
            p2 = emit Socket_connect p1;
            p3 = (if \<not> disableBc p2 then connectBc Y p2 else p2)
        in set_synced False p3
      else p)"

text \<open>
  The handler of the socket's \<^verbatim>\<open>connect\<close> event, with the \<^verbatim>\<open>resyncInterval\<close> the
  constructor was given.
\<close>

definition onSocketConnection :: "('d, 'u, 'v) yjs \<Rightarrow> ('d, 'u, 'v) provider \<Rightarrow> ('d, 'u, 'v) provider" where
  "onSocketConnection Y p =
     (let p1 = emit (Emit_status Connected) p;
          p2 = emit (Socket_emit_sync_step_1 (encodeStateVector Y (doc p1))) p1;
          p3 = (if map_of (awareness_states p2) (awareness_clientID p2) \<noteq> None
                then emit (Socket_emit_awareness_update
                             (encodeAwarenessUpdate (awareness_states p2) [clientID p2])) p2
                else p2)
      in if cfg_resyncInterval p3 > 0
         then (let (h, p4) = setTimer (Resync_interval (cfg_resyncInterval p3)) p3
               in p4\<lparr>resyncInterval := Some h\<rparr>)
         else p3)"

text \<open>
  \<^verbatim>\<open>socket.disconnect()\<close> of socket.io-client on a connected socket closes it and fires the
  socket's \<^verbatim>\<open>disconnect\<close> event with the reason \<^verbatim>\<open>io client disconnect\<close> before it returns.
\<close>

definition disconnect :: "('d, 'u, 'v) provider \<Rightarrow> ('d, 'u, 'v) provider" where
  "disconnect p =
     (if socket_connected p
      then
        let p1 = disconnectBc p;
            p2 = (emit Socket_disconnect p1)\<lparr>socket_connected := False\<rparr>
        in onSocketDisconnection ''io client disconnect'' p2
      else p)"

text \<open>
  \<^verbatim>\<open>destroy()\<close>. \<^verbatim>\<open>awareness.destroy()\<close> of y-protocols sets the local state to null, which
  removes the store's own entry.
\<close>

definition destroy :: "('d, 'u, 'v) provider \<Rightarrow> ('d, 'u, 'v) provider" where
  "destroy p =
     (let p1 = (case resyncInterval p of Some h \<Rightarrow> clearTimer h p | None \<Rightarrow> p);
          p2 = disconnect p1;
          p3 = emit Remove_unload_listener p2;
          p4 = p3\<lparr>awareness_listening := False\<rparr>;
          p5 = (emit Awareness_destroy p4)
                 \<lparr>awareness_states := AList.delete (awareness_clientID p4) (awareness_states p4)\<rparr>;
          p6 = p5\<lparr>doc_listening := False\<rparr>
      in emit Observable_destroy p6)"

text \<open>
  The constructor. \<open>awareness0\<close> is the awareness store the caller gave (its client id and
  its states); without one the provider makes a store for \<open>doc0\<close>, which holds the empty
  object as its own state.
\<close>

definition new_provider ::
  "('d, 'u, 'v) yjs \<Rightarrow> 'd \<Rightarrow> nat \<Rightarrow> bool \<Rightarrow> (nat \<times> awareness_states) option \<Rightarrow> int \<Rightarrow> bool \<Rightarrow>
     int option \<Rightarrow> bool \<Rightarrow> ('d, 'u, 'v) provider" where
  "new_provider Y doc0 cid autoConnect awareness0 resyncInterval0 disableBc0 debounceTime0 onPending0 =
     (let p = \<lparr>debounceTime = debounceTime0, updateTimer = None, onPending = onPending0,
                pendingUpdates = [], doc = doc0, clientID = cid,
                awareness_clientID = (case awareness0 of Some (c, _) \<Rightarrow> c | None \<Rightarrow> cid),
                awareness_states = (case awareness0 of Some (_, st) \<Rightarrow> st | None \<Rightarrow> [(cid, ''{}'')]),
                awareness_listening = True, doc_listening = True,
                disableBc = disableBc0, bcconnected = False, synced = False,
                resyncInterval = None, cfg_resyncInterval = resyncInterval0,
                socket_connected = False, timers = [], next_timer = 0, out = []\<rparr>
      in if autoConnect then connect Y p else p)"

text \<open>The transport reports that the socket is connected: the \<^verbatim>\<open>connect\<close> event.\<close>

definition socket_connect_event :: "('d, 'u, 'v) yjs \<Rightarrow> ('d, 'u, 'v) provider \<Rightarrow> ('d, 'u, 'v) provider" where
  "socket_connect_event Y p = onSocketConnection Y (p\<lparr>socket_connected := True\<rparr>)"

text \<open>The updates a provider sent over its socket as \<^verbatim>\<open>sync-update\<close>, in order.\<close>

fun sent_sync_updates :: "('u, 'v) client_event list \<Rightarrow> 'u list" where
  "sent_sync_updates [] = []"
| "sent_sync_updates (Socket_emit_sync_update u # es) = u # sent_sync_updates es"
| "sent_sync_updates (_ # es) = sent_sync_updates es"

fun is_awareness_send :: "('u, 'v) client_event \<Rightarrow> bool" where
  "is_awareness_send (Socket_emit_awareness_update _) = True"
| "is_awareness_send (Bc_publish (Bc_awareness_update _)) = True"
| "is_awareness_send _ = False"

text \<open>
  A small instance of the library for concrete runs: a replica is the list of the
  operation ids it has seen, an update is a list of ids, a state vector the ids seen.
\<close>

definition gset_yjs :: "(nat list, nat list, nat list) yjs" where
  "gset_yjs =
     \<lparr>encodeStateVector = (\<lambda>d. d),
      encodeStateAsUpdate =
        (\<lambda>d sv. case sv of None \<Rightarrow> d | Some v \<Rightarrow> filter (\<lambda>x. x \<notin> set v) d),
      applyUpdate =
        (\<lambda>d u. let new = filter (\<lambda>x. x \<notin> set d) u
                in (d @ new, if new = [] then None else Some new)),
      mergeUpdates = (\<lambda>us. remdups (concat us)),
      newDoc = []\<rparr>"

section \<open>The server: \<^verbatim>\<open>Document\<close> (src/server/document.ts)\<close>

text \<open>
  A user callback is given by what its call does to the caller: it returns or it throws.
  For the asynchronous \<^verbatim>\<open>onDestroy\<close>, which \<open>destroy\<close> awaits inside its \<^verbatim>\<open>try\<close>, \<open>Throws\<close>
  is a throw or a rejection.
\<close>

datatype outcome = Returns | Throws string

record 'u callbacks =
  onUpdate :: "('u \<Rightarrow> outcome) option"
  onChangeAwareness :: "(awareness_update \<Rightarrow> outcome) option"
  onDestroy :: "(string \<Rightarrow> outcome) option"

text \<open>
  A JavaScript value as far as the constructor's \<^verbatim>\<open>localOnly\<close> argument can tell values
  apart: a boolean, or an object (which is truthy).
\<close>

datatype js_value = JS_bool bool | JS_object

fun truthy :: "js_value \<Rightarrow> bool" where
  "truthy (JS_bool b) = b"
| "truthy JS_object = True"

text \<open>
  The handlers of a document's \<^verbatim>\<open>update\<close> event, in the order they were registered: the
  document's own \<^verbatim>\<open>onUpdateDoc\<close>, and the hook of the persistence binding, which stores the
  update under a document name.
\<close>

datatype update_handler = OnUpdateDoc | Store_update string

record ('d, 'u) document =
  name :: string
  namespace :: string
  localOnly :: "js_value option"
  callbacks :: "'u callbacks option"
  gc :: bool
  content :: 'd
  awareness :: awareness_states
  update_observers :: "update_handler list"
  awareness_observed :: bool
  destroyed :: bool

datatype ('u, 'v) server_event =
    Called_onUpdate string 'u
  | Called_onChangeAwareness string awareness_update
  | Called_onDestroy string
  | Console_warn string
  | Nsp_emit_sync_update string 'u
  | Nsp_local_emit_sync_update string 'u
  | Nsp_emit_awareness_update string awareness_update
  | Nsp_disconnectSockets string
  | Emit_document_loaded nat
  | Emit_all_document_connections_closed nat
  | Persistence_writeState string
  | Socket_sync_step_1 nat 'v
  | Socket_awareness_update nat awareness_update
  | Socket_syncStep2_ack nat 'u

section \<open>The server: \<^verbatim>\<open>YSocketIO\<close> (src/server/y-socket-io.ts)\<close>

text \<open>
  The authentication callback resolves to a boolean, or it throws or rejects.
\<close>

datatype auth_result = Resolves bool | Rejects string

text \<open>
  The state of the server. \<open>documents\<close> is the \<^verbatim>\<open>Map\<close> of the \<^verbatim>\<open>MemoryDocumentsController\<close>,
  from document names to \<^verbatim>\<open>Document\<close> instances; an instance is a reference into \<open>heap\<close>, so
  that two instances with equal fields stay two. \<open>persistence\<close> says whether
  \<^verbatim>\<open>this.persistence\<close> is set, \<open>ldb\<close> is the LevelDB store (the updates stored under each
  name, oldest first), \<open>sockets\<close> lists the connected sockets of each namespace,
  \<open>socket_docs\<close> the document each socket's listeners were registered for, \<open>env_GC\<close> is the
  \<^verbatim>\<open>gcEnabled\<close> constant of the environment, and \<open>log\<close> is what the server did to the outside.
\<close>

record ('d, 'u, 'v) ysocketio =
  documents :: "(string \<times> nat) list"
  heap :: "(nat \<times> ('d, 'u) document) list"
  next_ref :: nat
  persistence :: bool
  ldb :: "(string \<times> 'u list) list"
  authenticate :: "(string \<Rightarrow> auth_result) option"
  cfg_gcEnabled :: "bool option"
  env_GC :: bool
  sockets :: "(string \<times> nat list) list"
  socket_docs :: "(nat \<times> nat) list"
  log :: "('u, 'v) server_event list"

definition logs :: "('u, 'v) server_event \<Rightarrow> ('d, 'u, 'v) ysocketio \<Rightarrow> ('d, 'u, 'v) ysocketio" where
  "logs e s = s\<lparr>log := log s @ [e]\<rparr>"

definition update_doc ::
  "nat \<Rightarrow> (('d, 'u) document \<Rightarrow> ('d, 'u) document) \<Rightarrow> ('d, 'u, 'v) ysocketio \<Rightarrow> ('d, 'u, 'v) ysocketio" where
  "update_doc d f s = s\<lparr>heap := AList.map_entry d f (heap s)\<rparr>"

definition allSockets :: "string \<Rightarrow> ('d, 'u, 'v) ysocketio \<Rightarrow> nat list" where
  "allSockets nsp s = (case map_of (sockets s) nsp of Some ids \<Rightarrow> ids | None \<Rightarrow> [])"

text \<open>
  The constructor of \<^verbatim>\<open>Document\<close>: a fresh instance with an empty replica and an awareness
  store whose local state was set to null, listening to both \<^verbatim>\<open>update\<close> events.
\<close>

definition new_Document ::
  "('d, 'u, 'v) yjs \<Rightarrow> string \<Rightarrow> string \<Rightarrow> js_value option \<Rightarrow> 'u callbacks option \<Rightarrow>
     ('d, 'u, 'v) ysocketio \<Rightarrow> nat \<times> ('d, 'u, 'v) ysocketio" where
  "new_Document Y nm nsp lo cbs s =
     (next_ref s,
      s\<lparr>heap := heap s @
           [(next_ref s,
             \<lparr>name = nm, namespace = nsp, localOnly = lo, callbacks = cbs, gc = env_GC s,
              content = newDoc Y, awareness = [], update_observers = [OnUpdateDoc],
              awareness_observed = True, destroyed = False\<rparr>)],
        next_ref := Suc (next_ref s)\<rparr>)"

text \<open>\<^verbatim>\<open>Document.onUpdateDoc\<close>, on the instance \<open>d\<close>.\<close>

definition Document_onUpdateDoc ::
  "nat \<Rightarrow> 'u \<Rightarrow> ('d, 'u, 'v) ysocketio \<Rightarrow> ('d, 'u, 'v) ysocketio" where
  "Document_onUpdateDoc d update s =
     (case map_of (heap s) d of
        None \<Rightarrow> s
      | Some this \<Rightarrow>
          let s1 = (case callbacks this of
                      None \<Rightarrow> s
                    | Some cbs \<Rightarrow>
                        (case onUpdate cbs of
                           None \<Rightarrow> s
                         | Some f \<Rightarrow>
                             (case f update of
                                Returns \<Rightarrow> logs (Called_onUpdate (name this) update) s
                              | Throws error \<Rightarrow>
                                  logs (Console_warn error)
                                    (logs (Called_onUpdate (name this) update) s))))
          in (case localOnly this of
                Some v \<Rightarrow>
                  if truthy v then logs (Nsp_local_emit_sync_update (namespace this) update) s1
                  else logs (Nsp_emit_sync_update (namespace this) update) s1
              | None \<Rightarrow> logs (Nsp_emit_sync_update (namespace this) update) s1))"

text \<open>\<^verbatim>\<open>Document.onUpdateAwareness\<close>, on the instance \<open>d\<close>.\<close>

definition Document_onUpdateAwareness ::
  "nat \<Rightarrow> nat list \<Rightarrow> nat list \<Rightarrow> nat list \<Rightarrow> ('d, 'u, 'v) ysocketio \<Rightarrow> ('d, 'u, 'v) ysocketio" where
  "Document_onUpdateAwareness d added updated removed s =
     (case map_of (heap s) d of
        None \<Rightarrow> s
      | Some this \<Rightarrow>
          let changedClients = added @ updated @ removed;
              update = encodeAwarenessUpdate (awareness this) changedClients;
              s1 = (case callbacks this of
                      None \<Rightarrow> s
                    | Some cbs \<Rightarrow>
                        (case onChangeAwareness cbs of
                           None \<Rightarrow> s
                         | Some f \<Rightarrow>
                             (case f update of
                                Returns \<Rightarrow> logs (Called_onChangeAwareness (name this) update) s
                              | Throws error \<Rightarrow>
                                  logs (Console_warn error)
                                    (logs (Called_onChangeAwareness (name this) update) s))))
          in logs (Nsp_emit_awareness_update (namespace this) update) s1)"

text \<open>
  \<^verbatim>\<open>Document.destroy\<close>, on the instance \<open>d\<close>. \<^verbatim>\<open>namespace.disconnectSockets()\<close> makes every
  socket of the namespace disconnect; \<^verbatim>\<open>super.destroy()\<close> of the replica drops all its
  observers.
\<close>

definition Document_destroy :: "nat \<Rightarrow> ('d, 'u, 'v) ysocketio \<Rightarrow> ('d, 'u, 'v) ysocketio" where
  "Document_destroy d s =
     (case map_of (heap s) d of
        None \<Rightarrow> s
      | Some this \<Rightarrow>
          let s1 = (case callbacks this of
                      None \<Rightarrow> s
                    | Some cbs \<Rightarrow>
                        (case onDestroy cbs of
                           None \<Rightarrow> s
                         | Some f \<Rightarrow>
                             (case f (name this) of
                                Returns \<Rightarrow> logs (Called_onDestroy (name this)) s
                              | Throws error \<Rightarrow>
                                  logs (Console_warn error) (logs (Called_onDestroy (name this)) s))));
              s2 = update_doc d (\<lambda>x. x\<lparr>awareness_observed := False\<rparr>) s1;
              s3 = update_doc d (\<lambda>x. x\<lparr>update_observers := removeAll OnUpdateDoc (update_observers x)\<rparr>) s2;
              s4 = (logs (Nsp_disconnectSockets (namespace this)) s3)
                     \<lparr>sockets := AList.update (namespace this) [] (sockets s3)\<rparr>
          in update_doc d (\<lambda>x. x\<lparr>update_observers := [], destroyed := True\<rparr>) s4)"

text \<open>\<^verbatim>\<open>ldb.storeUpdate(docName, update)\<close> appends; \<^verbatim>\<open>ldb.getYDoc(docName)\<close> replays.\<close>

definition storeUpdate :: "string \<Rightarrow> 'u \<Rightarrow> ('d, 'u, 'v) ysocketio \<Rightarrow> ('d, 'u, 'v) ysocketio" where
  "storeUpdate docName update s =
     s\<lparr>ldb := AList.update docName
                 ((case map_of (ldb s) docName of Some us \<Rightarrow> us | None \<Rightarrow> []) @ [update]) (ldb s)\<rparr>"

definition stored_updates :: "string \<Rightarrow> ('d, 'u, 'v) ysocketio \<Rightarrow> 'u list" where
  "stored_updates docName s = (case map_of (ldb s) docName of Some us \<Rightarrow> us | None \<Rightarrow> [])"

definition getYDoc :: "('d, 'u, 'v) yjs \<Rightarrow> string \<Rightarrow> ('d, 'u, 'v) ysocketio \<Rightarrow> 'd" where
  "getYDoc Y docName s = fold (\<lambda>u x. fst (applyUpdate Y x u)) (stored_updates docName s) (newDoc Y)"

text \<open>One handler of a document's \<^verbatim>\<open>update\<close> event, and the event itself.\<close>

fun run_update_handler ::
  "nat \<Rightarrow> 'u \<Rightarrow> update_handler \<Rightarrow> ('d, 'u, 'v) ysocketio \<Rightarrow> ('d, 'u, 'v) ysocketio" where
  "run_update_handler d update OnUpdateDoc s = Document_onUpdateDoc d update s"
| "run_update_handler d update (Store_update docName) s = storeUpdate docName update s"

definition fire_update :: "nat \<Rightarrow> 'u \<Rightarrow> ('d, 'u, 'v) ysocketio \<Rightarrow> ('d, 'u, 'v) ysocketio" where
  "fire_update d update s =
     (case map_of (heap s) d of
        None \<Rightarrow> s
      | Some this \<Rightarrow> fold (run_update_handler d update) (update_observers this) s)"

text \<open>\<^verbatim>\<open>Y.applyUpdate(doc, update)\<close> on the instance \<open>d\<close>.\<close>

definition doc_applyUpdate ::
  "('d, 'u, 'v) yjs \<Rightarrow> nat \<Rightarrow> 'u \<Rightarrow> ('d, 'u, 'v) ysocketio \<Rightarrow> ('d, 'u, 'v) ysocketio" where
  "doc_applyUpdate Y d update s =
     (case map_of (heap s) d of
        None \<Rightarrow> s
      | Some this \<Rightarrow>
          let (c', fired) = applyUpdate Y (content this) update;
              s1 = update_doc d (\<lambda>x. x\<lparr>content := c'\<rparr>) s
          in (case fired of Some u' \<Rightarrow> fire_update d u' s1 | None \<Rightarrow> s1))"

text \<open>\<^verbatim>\<open>persistence.bindState\<close> as \<^verbatim>\<open>initLevelDB\<close> defines it.\<close>

definition bindState ::
  "('d, 'u, 'v) yjs \<Rightarrow> string \<Rightarrow> nat \<Rightarrow> ('d, 'u, 'v) ysocketio \<Rightarrow> ('d, 'u, 'v) ysocketio" where
  "bindState Y docName ydoc s =
     (case map_of (heap s) ydoc of
        None \<Rightarrow> s
      | Some this \<Rightarrow>
          let persistedYdoc = getYDoc Y docName s;
              newUpdates = encodeStateAsUpdate Y (content this) None;
              s1 = storeUpdate docName newUpdates s;
              s2 = doc_applyUpdate Y ydoc (encodeStateAsUpdate Y persistedYdoc None) s1
          in update_doc ydoc (\<lambda>x. x\<lparr>update_observers := update_observers x @ [Store_update docName]\<rparr>) s2)"

text \<open>
  \<^verbatim>\<open>initDocument\<close>, run without another task in between. The call of \<^verbatim>\<open>new Document\<close> has
  three arguments, so the object of callbacks is the constructor's third parameter,
  \<^verbatim>\<open>localOnly\<close>, and its fourth, \<^verbatim>\<open>callbacks\<close>, is undefined. The parameter \<^verbatim>\<open>gc\<close> is
  \<^verbatim>\<open>true\<close> when the argument is undefined.
\<close>

definition initDocument ::
  "('d, 'u, 'v) yjs \<Rightarrow> string \<Rightarrow> string \<Rightarrow> bool option \<Rightarrow> ('d, 'u, 'v) ysocketio \<Rightarrow>
     nat \<times> ('d, 'u, 'v) ysocketio" where
  "initDocument Y nm nsp gc_arg s =
     (let (d, s1) = (case map_of (documents s) nm of
                       Some d \<Rightarrow> (d, s)
                     | None \<Rightarrow> new_Document Y nm nsp (Some JS_object) None s);
          s2 = update_doc d (\<lambda>x. x\<lparr>gc := (case gc_arg of Some b \<Rightarrow> b | None \<Rightarrow> True)\<rparr>) s1;
          documentExists = (map_of (documents s2) nm \<noteq> None)
      in if \<not> documentExists
         then
           let s3 = (if persistence s2 then bindState Y nm d s2 else s2);
               s4 = s3\<lparr>documents := AList.update nm d (documents s3)\<rparr>
           in (d, logs (Emit_document_loaded d) s4)
         else (d, s2))"

text \<open>
  \<^verbatim>\<open>initDocument\<close> is asynchronous: it gives way to other tasks wherever it awaits. A task is
  a call of \<^verbatim>\<open>initDocument\<close> at one of these points, with the values it holds there. The
  call of an awaited operation is made before the task gives way, so its effect and its
  result belong to the step that ends at the \<^verbatim>\<open>await\<close>.
\<close>

datatype 'd task =
    Called string string "bool option"
  | Await_get "nat option" string string bool
  | Await_has nat bool string
  | Await_getYDoc nat string 'd
  | Await_storeUpdate nat string 'd
  | Await_bindState nat string
  | Await_set nat string
  | Returned nat

fun init_step ::
  "('d, 'u, 'v) yjs \<Rightarrow> ('d, 'u, 'v) ysocketio \<times> 'd task \<Rightarrow> ('d, 'u, 'v) ysocketio \<times> 'd task" where
  "init_step Y (s, Called nm nsp gc_arg) =
     (s, Await_get (map_of (documents s) nm) nm nsp (case gc_arg of Some b \<Rightarrow> b | None \<Rightarrow> True))"
| "init_step Y (s, Await_get found nm nsp g) =
     (let (d, s1) = (case found of
                       Some d \<Rightarrow> (d, s)
                     | None \<Rightarrow> new_Document Y nm nsp (Some JS_object) None s);
          s2 = update_doc d (\<lambda>x. x\<lparr>gc := g\<rparr>) s1
      in (s2, Await_has d (map_of (documents s2) nm \<noteq> None) nm))"
| "init_step Y (s, Await_has d documentExists nm) =
     (if \<not> documentExists
      then (if persistence s
            then (case map_of (heap s) d of
                    None \<Rightarrow> (s, Await_bindState d nm)
                  | Some _ \<Rightarrow> (s, Await_getYDoc d nm (getYDoc Y nm s)))
            else (s\<lparr>documents := AList.update nm d (documents s)\<rparr>, Await_set d nm))
      else (s, Returned d))"
| "init_step Y (s, Await_getYDoc d nm persistedYdoc) =
     (case map_of (heap s) d of
        None \<Rightarrow> (s, Await_storeUpdate d nm persistedYdoc)
      | Some this \<Rightarrow>
          (storeUpdate nm (encodeStateAsUpdate Y (content this) None) s,
           Await_storeUpdate d nm persistedYdoc))"
| "init_step Y (s, Await_storeUpdate d nm persistedYdoc) =
     (let s2 = doc_applyUpdate Y d (encodeStateAsUpdate Y persistedYdoc None) s
      in (update_doc d (\<lambda>x. x\<lparr>update_observers := update_observers x @ [Store_update nm]\<rparr>) s2,
          Await_bindState d nm))"
| "init_step Y (s, Await_bindState d nm) =
     (s\<lparr>documents := AList.update nm d (documents s)\<rparr>, Await_set d nm)"
| "init_step Y (s, Await_set d nm) = (logs (Emit_document_loaded d) s, Returned d)"
| "init_step Y (s, Returned d) = (s, Returned d)"

text \<open>
  A schedule names, step by step, the task that runs next; a name that is no task's is
  skipped.
\<close>

fun run_schedule ::
  "('d, 'u, 'v) yjs \<Rightarrow> nat list \<Rightarrow> ('d, 'u, 'v) ysocketio \<times> 'd task list \<Rightarrow>
     ('d, 'u, 'v) ysocketio \<times> 'd task list" where
  "run_schedule Y [] st = st"
| "run_schedule Y (i # sched) (s, ts) =
     (if i < length ts
      then (let (s', t') = init_step Y (s, ts ! i) in run_schedule Y sched (s', ts[i := t']))
      else run_schedule Y sched (s, ts))"

text \<open>
  For reasoning about calls that overlap: the instance a task holds once it has passed the
  assignment of \<^verbatim>\<open>doc\<close>; whether its look-up found nothing; and, for two tasks that found
  nothing, that the instances they hold were made since the reference counter stood at
  \<open>n0\<close> and differ.
\<close>

fun held :: "'d task \<Rightarrow> nat option" where
  "held (Called _ _ _) = None"
| "held (Await_get _ _ _ _) = None"
| "held (Await_has d _ _) = Some d"
| "held (Await_getYDoc d _ _) = Some d"
| "held (Await_storeUpdate d _ _) = Some d"
| "held (Await_bindState d _) = Some d"
| "held (Await_set d _) = Some d"
| "held (Returned d) = Some d"

fun found_nothing :: "'d task \<Rightarrow> bool" where
  "found_nothing (Called _ _ _) = False"
| "found_nothing (Await_get found _ _ _) = (found = None)"
| "found_nothing _ = True"

definition apart :: "nat \<Rightarrow> ('d, 'u, 'v) ysocketio \<Rightarrow> 'd task \<Rightarrow> 'd task \<Rightarrow> bool" where
  "apart n0 s t0 t1 =
     (found_nothing t0 \<and> found_nothing t1 \<and> n0 \<le> next_ref s \<and>
      (case held t0 of None \<Rightarrow> True | Some d \<Rightarrow> n0 \<le> d \<and> d < next_ref s) \<and>
      (case held t1 of None \<Rightarrow> True | Some d \<Rightarrow> n0 \<le> d \<and> d < next_ref s) \<and>
      (case (held t0, held t1) of (Some d0, Some d1) \<Rightarrow> d0 \<noteq> d1 | _ \<Rightarrow> True))"

text \<open>
  The listener of a socket's \<^verbatim>\<open>disconnect\<close> event that \<^verbatim>\<open>initSocketListeners\<close> registers for
  a socket of the namespace \<open>nsp\<close> and the document \<open>d\<close>. \<^verbatim>\<open>persistence.writeState\<close> does
  nothing but be called.
\<close>

definition on_socket_disconnect ::
  "string \<Rightarrow> nat \<Rightarrow> ('d, 'u, 'v) ysocketio \<Rightarrow> ('d, 'u, 'v) ysocketio" where
  "on_socket_disconnect nsp d s =
     (if length (allSockets nsp s) = 0
      then
        let s1 = logs (Emit_all_document_connections_closed d) s
        in if persistence s1
           then (case map_of (heap s1) d of
                   None \<Rightarrow> s1
                 | Some this \<Rightarrow> Document_destroy d (logs (Persistence_writeState (name this)) s1))
           else s1
      else s)"

text \<open>The listeners of \<^verbatim>\<open>sync-step-1\<close> and \<^verbatim>\<open>sync-update\<close> of \<^verbatim>\<open>initSyncListeners\<close>.\<close>

definition server_on_sync_step_1 ::
  "('d, 'u, 'v) yjs \<Rightarrow> nat \<Rightarrow> nat \<Rightarrow> 'v \<Rightarrow> ('d, 'u, 'v) ysocketio \<Rightarrow> ('d, 'u, 'v) ysocketio" where
  "server_on_sync_step_1 Y sid d stateVector s =
     (case map_of (heap s) d of
        None \<Rightarrow> s
      | Some this \<Rightarrow>
          logs (Socket_syncStep2_ack sid (encodeStateAsUpdate Y (content this) (Some stateVector))) s)"

definition server_on_sync_update ::
  "('d, 'u, 'v) yjs \<Rightarrow> nat \<Rightarrow> 'u \<Rightarrow> ('d, 'u, 'v) ysocketio \<Rightarrow> ('d, 'u, 'v) ysocketio" where
  "server_on_sync_update Y d update s = doc_applyUpdate Y d update s"

definition startSynchronization ::
  "('d, 'u, 'v) yjs \<Rightarrow> nat \<Rightarrow> nat \<Rightarrow> ('d, 'u, 'v) ysocketio \<Rightarrow> ('d, 'u, 'v) ysocketio" where
  "startSynchronization Y sid d s =
     (case map_of (heap s) d of
        None \<Rightarrow> s
      | Some this \<Rightarrow>
          logs (Socket_awareness_update sid
                  (encodeAwarenessUpdate (awareness this) (map fst (awareness this))))
            (logs (Socket_sync_step_1 sid (encodeStateVector Y (content this))) s))"

text \<open>
  \<^verbatim>\<open>name.replace(/\/yjs\|/, '')\<close>: the first occurrence of the pattern is taken out.
\<close>

fun replace_first :: "string \<Rightarrow> string \<Rightarrow> string" where
  "replace_first pat [] = []"
| "replace_first pat (c # cs) =
     (if prefix pat (c # cs) then drop (length pat) (c # cs) else c # replace_first pat cs)"

text \<open>
  The listener of the namespace's \<^verbatim>\<open>connection\<close> event, for the socket \<open>sid\<close> of the
  namespace named \<open>nsp\<close>, with \<^verbatim>\<open>initDocument\<close> run without another task in between.
\<close>

definition on_connection ::
  "('d, 'u, 'v) yjs \<Rightarrow> nat \<Rightarrow> string \<Rightarrow> ('d, 'u, 'v) ysocketio \<Rightarrow> ('d, 'u, 'v) ysocketio" where
  "on_connection Y sid nsp s =
     (let (d, s1) = initDocument Y (replace_first ''/yjs|'' nsp) nsp (cfg_gcEnabled s) s;
          s2 = s1\<lparr>socket_docs := AList.update sid d (socket_docs s1)\<rparr>
      in startSynchronization Y sid d s2)"

text \<open>
  The middleware that \<^verbatim>\<open>initialize\<close> installs, by what it does with \<^verbatim>\<open>next\<close>: it calls
  it without an argument, it calls it with an error, or (when the authentication callback
  throws or rejects) it does not call it.
\<close>

datatype next_call = Next | Next_error string | Not_called

definition auth_middleware :: "('d, 'u, 'v) ysocketio \<Rightarrow> string \<Rightarrow> next_call" where
  "auth_middleware s handshake =
     (case authenticate s of
        None \<Rightarrow> Next
      | Some f \<Rightarrow>
          (case f handshake of
             Resolves ok \<Rightarrow> if ok then Next else Next_error ''Unauthorized''
           | Rejects _ \<Rightarrow> Not_called))"

text \<open>
  The constructor of \<^verbatim>\<open>YSocketIO\<close>: persistence is set up when the configuration or the
  environment names a directory; \<open>ldb0\<close> is what the store of that directory holds.
\<close>

definition new_YSocketIO ::
  "string option \<Rightarrow> string option \<Rightarrow> (string \<times> 'u list) list \<Rightarrow> (string \<Rightarrow> auth_result) option \<Rightarrow>
     bool option \<Rightarrow> bool \<Rightarrow> ('d, 'u, 'v) ysocketio" where
  "new_YSocketIO levelPersistenceDir env_YPERSISTENCE ldb0 authenticate0 gcEnabled0 env_GC0 =
     \<lparr>documents = [], heap = [], next_ref = 0,
      persistence = ((case levelPersistenceDir of Some dir \<Rightarrow> Some dir | None \<Rightarrow> env_YPERSISTENCE) \<noteq> None),
      ldb = ldb0, authenticate = authenticate0, cfg_gcEnabled = gcEnabled0, env_GC = env_GC0,
      sockets = [], socket_docs = [], log = []\<rparr>"

section \<open>The transport (socket.io), as far as the two sides rely on it\<close>

text \<open>
  A socket joins a namespace: the transport adds it to the namespace's sockets and fires
  the namespace's \<^verbatim>\<open>connection\<close> event. A socket leaves: the transport takes it out of the
  namespace's sockets and fires the socket's \<^verbatim>\<open>disconnect\<close> event, which reaches the
  listener registered for the socket's document.
\<close>

definition socket_joins ::
  "('d, 'u, 'v) yjs \<Rightarrow> nat \<Rightarrow> string \<Rightarrow> ('d, 'u, 'v) ysocketio \<Rightarrow> ('d, 'u, 'v) ysocketio" where
  "socket_joins Y sid nsp s =
     on_connection Y sid nsp (s\<lparr>sockets := AList.update nsp (allSockets nsp s @ [sid]) (sockets s)\<rparr>)"

definition socket_leaves ::
  "nat \<Rightarrow> string \<Rightarrow> ('d, 'u, 'v) ysocketio \<Rightarrow> ('d, 'u, 'v) ysocketio" where
  "socket_leaves sid nsp s =
     (let s1 = s\<lparr>sockets := AList.update nsp (removeAll sid (allSockets nsp s)) (sockets s)\<rparr>
      in case map_of (socket_docs s1) sid of
           None \<Rightarrow> s1
         | Some d \<Rightarrow> on_socket_disconnect nsp d s1)"

text \<open>
  A connection attempt of a provider's socket with a handshake: the server runs the
  middleware; when it calls \<^verbatim>\<open>next()\<close> the socket joins and the client's socket fires
  \<^verbatim>\<open>connect\<close>; when it calls \<^verbatim>\<open>next(error)\<close> the client's socket fires \<^verbatim>\<open>connect_error\<close>
  with the error's message; when it never calls \<^verbatim>\<open>next\<close> neither side hears anything.
\<close>

definition connection_attempt ::
  "('d, 'u, 'v) yjs \<Rightarrow> nat \<Rightarrow> string \<Rightarrow> string \<Rightarrow>
     ('d, 'u, 'v) ysocketio \<times> ('d, 'u, 'v) provider \<Rightarrow> ('d, 'u, 'v) ysocketio \<times> ('d, 'u, 'v) provider" where
  "connection_attempt Y sid nsp handshake sp =
     (case auth_middleware (fst sp) handshake of
        Next \<Rightarrow> (socket_joins Y sid nsp (fst sp), socket_connect_event Y (snd sp))
      | Next_error message \<Rightarrow> (fst sp, onSocketConnectionError message (snd sp))
      | Not_called \<Rightarrow> sp)"

section \<open>Concrete inputs\<close>

text \<open>
  A provider of replica \<open>[]\<close> with client id 7, made with \<^verbatim>\<open>autoConnect\<close>, no resync
  interval, the broadcast channel disabled, a debounce window of 100 ms and an
  \<^verbatim>\<open>onPending\<close> callback, whose socket has connected.
\<close>

definition debounced_provider :: "(nat list, nat list, nat list) provider" where
  "debounced_provider =
     socket_connect_event gset_yjs (new_provider gset_yjs [] 7 True None (- 1) True (Some 100) True)"


text \<open>The same provider after three local edits and the firing of the flush timer.\<close>

definition three_edits_flushed :: "(nat list, nat list, nat list) provider" where
  "three_edits_flushed =
     fire_timer gset_yjs 2
       (onUpdateDoc [3] Other_origin
         (onUpdateDoc [2] Other_origin
           (onUpdateDoc [1] Other_origin debounced_provider)))"

text \<open>
  A provider made without \<^verbatim>\<open>autoConnect\<close>, with a debounce window of 100 ms, after one
  local edit: its flush timer, of handle 0, is armed.
\<close>

definition armed_provider :: "(nat list, nat list, nat list) provider" where
  "armed_provider =
     onUpdateDoc [1] Other_origin (new_provider gset_yjs [] 7 False None (- 1) True (Some 100) False)"

text \<open>
  A connected provider with a resync interval of 5 s and a debounce window of 100 ms, after
  one local edit: the interval has handle 0, the flush timer handle 1.
\<close>

definition resyncing_provider :: "(nat list, nat list, nat list) provider" where
  "resyncing_provider =
     onUpdateDoc [1] Other_origin
       (socket_connect_event gset_yjs
          (new_provider gset_yjs [] 7 True None 5000 True (Some 100) False))"

text \<open>A synced provider that knows the presence of the clients 8 and 9 besides its own.\<close>

definition crowded_provider :: "(nat list, nat list, nat list) provider" where
  "crowded_provider =
     (on_sync_step_1 gset_yjs [] debounced_provider)
       \<lparr>awareness_states := [(8, ''1''), (7, ''{}''), (9, ''2'')]\<rparr>"

text \<open>
  Servers: one without persistence and one with a store that holds two updates for the room
  \<open>R\<close>, each after socket 1 has joined the namespace of \<open>R\<close>; and one whose authentication
  accepts a single token.
\<close>

definition volatile_room :: "(nat list, nat list, nat list) ysocketio" where
  "volatile_room = socket_joins gset_yjs 1 ''/yjs|R'' (new_YSocketIO None None [] None None True)"

definition durable_room :: "(nat list, nat list, nat list) ysocketio" where
  "durable_room =
     socket_joins gset_yjs 1 ''/yjs|R''
       (new_YSocketIO (Some ''./db'') None [(''R'', [[1, 2], [3]])] None None True)"

definition guarded_server :: "(nat list, nat list, nat list) ysocketio" where
  "guarded_server =
     new_YSocketIO None None [] (Some (\<lambda>handshake. Resolves (handshake = ''valid-token''))) None True"

text \<open>
  A server with persistence whose store holds two updates for \<open>R\<close>, and a new document for
  \<open>R\<close> that was edited before it is bound.
\<close>

definition edited_document :: "(nat list, nat list, nat list) ysocketio" where
  "edited_document =
     update_doc 0 (\<lambda>x. x\<lparr>content := [9]\<rparr>)
       (snd (new_Document gset_yjs ''R'' ''/yjs|R'' (Some JS_object) None
          (new_YSocketIO (Some ''./db'') None [(''R'', [[1, 2], [3]])] None None True)))"

text \<open>A document whose three callbacks throw.\<close>

definition throwing_callbacks :: "nat list callbacks" where
  "throwing_callbacks =
     \<lparr>onUpdate = Some (\<lambda>u. Throws ''update failed''),
      onChangeAwareness = Some (\<lambda>u. Throws ''awareness failed''),
      onDestroy = Some (\<lambda>n. Throws ''destroy failed'')\<rparr>"

definition hooked_server :: "(nat list, nat list, nat list) ysocketio" where
  "hooked_server =
     snd (new_Document gset_yjs ''R'' ''/yjs|R'' None (Some throwing_callbacks)
            (new_YSocketIO None None [] None None True))"

text \<open>
  Two calls of \<^verbatim>\<open>initDocument\<close> for the room \<open>R\<close>, not yet started, on a new server with
  persistence and an empty store; the schedule in which they take turns at every
  \<^verbatim>\<open>await\<close>, and its first eleven steps, after which the first call has registered its
  instance and the second has not yet; and the schedule in which the second call starts
  when the first has returned.
\<close>

definition two_arrivals ::
  "(nat list, nat list, nat list) ysocketio \<times> nat list task list" where
  "two_arrivals =
     (new_YSocketIO (Some ''./db'') None [] None None True,
      [Called ''R'' ''/yjs|R'' None, Called ''R'' ''/yjs|R'' None])"

definition taking_turns :: "nat list" where
  "taking_turns = [0, 1, 0, 1, 0, 1, 0, 1, 0, 1, 0, 1, 0, 1]"

definition first_eleven_turns :: "nat list" where
  "first_eleven_turns = [0, 1, 0, 1, 0, 1, 0, 1, 0, 1, 0]"

definition one_after_the_other :: "nat list" where
  "one_after_the_other = replicate 7 0 @ replicate 7 1"



section \<open>Properties of the provider\<close>

lemmas client_defs =
  new_provider_def socket_connect_event_def onSocketConnection_def connect_def connectBc_def
  disconnect_def disconnectBc_def destroy_def onSocketDisconnection_def remove_awareness_def
  awarenessUpdate_def encodeAwarenessUpdate_def onSocketConnectionError_def on_sync_step_1_def
  onUpdateDoc_def onUpdateDocInner_def call_onPending_def flush_callback_def fire_timer_def
  set_synced_def setTimer_def clearTimer_def emit_def gset_yjs_def Let_def

lemma out_emit: "out (emit e p) = out p @ [e]"
  by (simp add: emit_def)

lemma emit_fields:
  "synced (emit e p) = synced p"
  "awareness_states (emit e p) = awareness_states p"
  "clientID (emit e p) = clientID p"
  "timers (emit e p) = timers p"
  "updateTimer (emit e p) = updateTimer p"
  "resyncInterval (emit e p) = resyncInterval p"
  by (simp_all add: emit_def)

lemma debounced_provider_unsynced: "\<not> synced debounced_provider"
  by (simp add: debounced_provider_def client_defs)

subsection \<open>The \<^verbatim>\<open>synced\<close> flag\<close>

text \<open>
  C10. Assigning \<^verbatim>\<open>synced\<close> its current value changes nothing and emits nothing; assigning
  another value stores it and emits \<^verbatim>\<open>synced\<close> and then \<^verbatim>\<open>sync\<close>, once each, with the new
  value; so assigning the same value again after that is silent.
\<close>

theorem set_synced_no_duplicates:
  "set_synced (synced p) p = p \<and>
   (state \<noteq> synced p \<longrightarrow>
      synced (set_synced state p) = state \<and>
      out (set_synced state p) = out p @ [Emit_synced state, Emit_sync state]) \<and>
   set_synced state (set_synced state p) = set_synced state p"
  by (auto simp add: set_synced_def emit_def)

theorem set_synced_no_duplicates_witness:
  "True \<noteq> synced debounced_provider \<and>
   synced (set_synced True debounced_provider) = True \<and>
   out (set_synced True debounced_provider) =
     out debounced_provider @ [Emit_synced True, Emit_sync True] \<and>
   set_synced True (set_synced True debounced_provider) = set_synced True debounced_provider"
  using set_synced_no_duplicates [of debounced_provider True] debounced_provider_unsynced
  by blast

text \<open>
  C7. On \<^verbatim>\<open>sync-step-1\<close> the provider calls the acknowledgment with the diff of its replica
  since the received state vector, and then sets \<^verbatim>\<open>synced\<close> to true (which emits the two
  events when the flag was false).
\<close>

theorem on_sync_step_1_acknowledges_then_synced:
  "out (on_sync_step_1 Y sv p) =
     out p @ [SyncStep2_ack (encodeStateAsUpdate Y (doc p) (Some sv))] @
       (if synced p then [] else [Emit_synced True, Emit_sync True]) \<and>
   synced (on_sync_step_1 Y sv p) = True"
  by (auto simp add: on_sync_step_1_def set_synced_def emit_def)

theorem on_sync_step_1_acknowledges_then_synced_witness:
  "out (on_sync_step_1 gset_yjs [1] (debounced_provider\<lparr>doc := [1, 2]\<rparr>)) =
     out debounced_provider @ [SyncStep2_ack [2], Emit_synced True, Emit_sync True] \<and>
   synced (on_sync_step_1 gset_yjs [1] (debounced_provider\<lparr>doc := [1, 2]\<rparr>)) = True"
  using on_sync_step_1_acknowledges_then_synced
          [of gset_yjs "[1]" "debounced_provider\<lparr>doc := [1, 2]\<rparr>"]
    debounced_provider_unsynced
  by (simp add: gset_yjs_def)

subsection \<open>Transport disconnection\<close>

lemma delete_filter: "AList.delete c xs = filter (\<lambda>e. fst e \<noteq> c) xs"
  by (induction xs) auto

lemma removeAwarenessStates_fst:
  "fst (removeAwarenessStates states cs) = filter (\<lambda>e. fst e \<notin> set cs) states"
proof (induction cs arbitrary: states)
  case Nil
  then show ?case by simp
next
  case (Cons c cs)
  show ?case
  proof (cases "map_of states c")
    case None
    then have "c \<notin> fst ` set states"
      by (simp add: map_of_eq_None_iff)
    then have "filter (\<lambda>e. fst e \<notin> set (c # cs)) states = filter (\<lambda>e. fst e \<notin> set cs) states"
      by (intro filter_cong) auto
    with None Cons show ?thesis by simp
  next
    case (Some a)
    have "filter (\<lambda>e. fst e \<notin> set cs) (AList.delete c states) =
          filter (\<lambda>e. fst e \<notin> set (c # cs)) states"
      by (simp add: delete_filter conj_commute)
    with Some Cons [of "AList.delete c states"] show ?thesis
      by (simp add: case_prod_beta)
  qed
qed

lemma remove_all_but_own:
  "fst (removeAwarenessStates states (filter (\<lambda>c. c \<noteq> cid) (map fst states))) =
     filter (\<lambda>e. fst e = cid) states"
  unfolding removeAwarenessStates_fst by (intro filter_cong) auto

lemma remove_awareness_states:
  "awareness_states (remove_awareness cs p) = fst (removeAwarenessStates (awareness_states p) cs)"
  by (simp add: remove_awareness_def awarenessUpdate_def emit_def Let_def case_prod_beta)

lemma remove_awareness_fields:
  "synced (remove_awareness cs p) = synced p"
  "timers (remove_awareness cs p) = timers p"
  "resyncInterval (remove_awareness cs p) = resyncInterval p"
  "updateTimer (remove_awareness cs p) = updateTimer p"
  by (simp_all add: remove_awareness_def awarenessUpdate_def emit_def Let_def case_prod_beta)

lemma remove_awareness_out:
  "\<exists>mid. out (remove_awareness cs p) = out p @ mid \<and> list_all is_awareness_send mid"
  by (simp add: remove_awareness_def awarenessUpdate_def emit_def Let_def case_prod_beta)

text \<open>
  C6. On the socket's \<^verbatim>\<open>disconnect\<close> event the provider emits \<^verbatim>\<open>connection-close\<close>, sets
  \<^verbatim>\<open>synced\<close> to false (emitting the flag's two events when it was true), removes from its
  awareness store exactly the entries of the clients other than its document's client id,
  which sends nothing but awareness updates, and emits the status \<^verbatim>\<open>disconnected\<close> last.
\<close>

theorem onSocketDisconnection_effect:
  "synced (onSocketDisconnection ev p) = False \<and>
   awareness_states (onSocketDisconnection ev p) =
     filter (\<lambda>e. fst e = clientID p) (awareness_states p) \<and>
   (\<exists>mid. out (onSocketDisconnection ev p) =
        out p @ [Emit_connection_close ev] @
          (if synced p then [Emit_synced False, Emit_sync False] else []) @ mid @
          [Emit_status Disconnected] \<and>
      list_all is_awareness_send mid)"
proof -
  define p2 where "p2 = set_synced False (emit (Emit_connection_close ev) p)"
  define cs where "cs = filter (\<lambda>client. client \<noteq> clientID p2) (map fst (awareness_states p2))"
  define p3 where "p3 = remove_awareness cs p2"
  have p2: "synced p2 = False" "awareness_states p2 = awareness_states p"
    "clientID p2 = clientID p"
    "out p2 = out p @ [Emit_connection_close ev] @
       (if synced p then [Emit_synced False, Emit_sync False] else [])"
    by (auto simp add: p2_def set_synced_def emit_def)
  have eq: "onSocketDisconnection ev p = emit (Emit_status Disconnected) p3"
    by (simp add: onSocketDisconnection_def Let_def p3_def cs_def p2_def)
  obtain mid where mid: "out p3 = out p2 @ mid" "list_all is_awareness_send mid"
    unfolding p3_def using remove_awareness_out by blast
  have 1: "synced (onSocketDisconnection ev p) = False"
    by (simp add: eq emit_fields p3_def remove_awareness_fields p2)
  have "awareness_states p3 = filter (\<lambda>e. fst e = clientID p) (awareness_states p)"
    using remove_all_but_own [of "awareness_states p" "clientID p"]
    by (simp add: p3_def cs_def remove_awareness_states p2)
  then have 2: "awareness_states (onSocketDisconnection ev p) =
      filter (\<lambda>e. fst e = clientID p) (awareness_states p)"
    by (simp add: eq emit_fields)
  have 3: "out (onSocketDisconnection ev p) =
        out p @ [Emit_connection_close ev] @
          (if synced p then [Emit_synced False, Emit_sync False] else []) @ mid @
          [Emit_status Disconnected]"
    by (simp add: eq out_emit mid(1) p2(4))
  from 1 2 3 mid(2) show ?thesis by blast
qed

lemma crowded_provider_disconnected:
  "out (onSocketDisconnection ''transport close'' crowded_provider) =
     out crowded_provider @
       [Emit_connection_close ''transport close'', Emit_synced False, Emit_sync False,
        Socket_emit_awareness_update [(8, None), (9, None)], Emit_status Disconnected]"
  by (simp add: crowded_provider_def debounced_provider_def client_defs)

theorem onSocketDisconnection_effect_witness:
  "synced (onSocketDisconnection ''transport close'' crowded_provider) = False \<and>
   awareness_states (onSocketDisconnection ''transport close'' crowded_provider) = [(7, ''{}'')] \<and>
   out (onSocketDisconnection ''transport close'' crowded_provider) =
     out crowded_provider @
       [Emit_connection_close ''transport close'', Emit_synced False, Emit_sync False,
        Socket_emit_awareness_update [(8, None), (9, None)], Emit_status Disconnected]"
proof -
  have "awareness_states crowded_provider = [(8, ''1''), (7, ''{}''), (9, ''2'')]"
    "clientID crowded_provider = 7"
    by (simp_all add: crowded_provider_def debounced_provider_def client_defs)
  with onSocketDisconnection_effect [of "''transport close''" crowded_provider]
    crowded_provider_disconnected
  show ?thesis by simp
qed

subsection \<open>Timers and \<^verbatim>\<open>destroy\<close>\<close>

lemma set_synced_fields:
  "timers (set_synced b p) = timers p"
  "resyncInterval (set_synced b p) = resyncInterval p"
  "updateTimer (set_synced b p) = updateTimer p"
  by (simp_all add: set_synced_def emit_def)

lemma onSocketDisconnection_fields:
  "timers (onSocketDisconnection ev p) = timers p"
  "resyncInterval (onSocketDisconnection ev p) = resyncInterval p"
  "updateTimer (onSocketDisconnection ev p) = updateTimer p"
  by (simp_all add: onSocketDisconnection_def Let_def emit_fields remove_awareness_fields
      set_synced_fields)

lemma disconnect_fields:
  "timers (disconnect p) = timers p"
  "resyncInterval (disconnect p) = resyncInterval p"
  "updateTimer (disconnect p) = updateTimer p"
  by (simp_all add: disconnect_def disconnectBc_def Let_def onSocketDisconnection_fields emit_def)

lemma timers_destroy:
  "timers (destroy p) =
     (case resyncInterval p of Some h \<Rightarrow> AList.delete h (timers p) | None \<Rightarrow> timers p)"
  by (simp add: destroy_def Let_def disconnect_fields clearTimer_def emit_def split: option.splits)

lemma handles_destroy:
  "resyncInterval (destroy p) = resyncInterval p" "updateTimer (destroy p) = updateTimer p"
  by (simp_all add: destroy_def Let_def disconnect_fields clearTimer_def emit_def
      split: option.splits)

text \<open>
  C8, as the code has it. \<^verbatim>\<open>destroy()\<close> clears the resync interval whose handle the
  provider holds, whatever the state of the connection, and leaves every other timer as it
  is: the flush timer of the debounce stays armed when it was armed, and its handle stays
  in \<^verbatim>\<open>updateTimer\<close>. A second \<^verbatim>\<open>destroy()\<close> leaves the armed timers as the first left them.
\<close>

theorem destroy_clears_resync_interval_only:
  "timers (destroy p) =
     (case resyncInterval p of Some h \<Rightarrow> AList.delete h (timers p) | None \<Rightarrow> timers p) \<and>
   timers (destroy (destroy p)) = timers (destroy p) \<and>
   updateTimer (destroy p) = updateTimer p"
  by (simp add: timers_destroy handles_destroy AList.delete_idem split: option.splits)

theorem destroy_clears_resync_interval_only_witness:
  "timers resyncing_provider = [(0, Resync_interval 5000), (1, Flush_timeout (Some 100))] \<and>
   resyncInterval resyncing_provider = Some 0 \<and>
   timers (destroy resyncing_provider) = [(1, Flush_timeout (Some 100))] \<and>
   timers (destroy (destroy resyncing_provider)) = [(1, Flush_timeout (Some 100))] \<and>
   updateTimer (destroy resyncing_provider) = Some 1"
proof -
  have "timers resyncing_provider = [(0, Resync_interval 5000), (1, Flush_timeout (Some 100))]"
    "resyncInterval resyncing_provider = Some 0" "updateTimer resyncing_provider = Some 1"
    by (simp_all add: resyncing_provider_def client_defs)
  with destroy_clears_resync_interval_only [of resyncing_provider] show ?thesis
    by simp
qed

text \<open>
  C8 fails as stated: a provider destroyed while its flush timer is armed keeps
  that timer armed, and when the timer fires afterwards the provider still sends the merged
  update.
\<close>

theorem destroy_leaves_flush_timer_armed:
  "updateTimer (destroy armed_provider) = Some 0 \<and>
   map_of (timers (destroy armed_provider)) 0 = Some (Flush_timeout (Some 100)) \<and>
   sent_sync_updates (out (fire_timer gset_yjs 0 (destroy armed_provider))) = [[1], [1]]"
  by (simp add: armed_provider_def client_defs)

subsection \<open>Debouncing\<close>

lemma sent_sync_updates_append:
  "sent_sync_updates (xs @ ys) = sent_sync_updates xs @ sent_sync_updates ys"
  by (induction xs rule: sent_sync_updates.induct) simp_all

text \<open>
  What the \<^verbatim>\<open>update\<close> handler sends for a local change: the update itself when a debounce
  window is configured, nothing when none is.
\<close>

lemma onUpdateDoc_sends:
  "sent_sync_updates (out (onUpdateDoc u Other_origin p)) =
     sent_sync_updates (out p) @ (if debounceTime p \<noteq> None then [u] else [])"
  by (simp add: onUpdateDoc_def onUpdateDocInner_def call_onPending_def clearTimer_def
      setTimer_def emit_def Let_def sent_sync_updates_append split: option.splits)

text \<open>
  C1 fails on the code. With a debounce window of 100 ms, three local edits and the firing
  of the flush timer send four updates, each edit at once and then their merge; the
  pending-notify callback is not called for the first edit; and the buffer still holds the
  three edits after the flush.
\<close>

theorem debounce_sends_every_edit_and_the_merge:
  "out three_edits_flushed =
     out debounced_provider @
       [Socket_emit_sync_update [1], Socket_emit_sync_update [2], On_pending True,
        Socket_emit_sync_update [3], On_pending True, Socket_emit_sync_update [1, 2, 3],
        On_pending False] \<and>
   sent_sync_updates (out three_edits_flushed) = [[1], [2], [3], [1, 2, 3]] \<and>
   pendingUpdates three_edits_flushed = [[1], [2], [3]]"
  by (simp add: three_edits_flushed_def debounced_provider_def client_defs)

section \<open>Properties of the server\<close>

lemmas server_defs =
  new_YSocketIO_def socket_joins_def socket_leaves_def on_connection_def initDocument_def
  bindState_def doc_applyUpdate_def fire_update_def Document_onUpdateDoc_def
  Document_onUpdateAwareness_def Document_destroy_def on_socket_disconnect_def
  startSynchronization_def new_Document_def update_doc_def logs_def allSockets_def
  storeUpdate_def stored_updates_def getYDoc_def encodeAwarenessUpdate_def auth_middleware_def
  gset_yjs_def Let_def

lemma logs_fields:
  "log (logs e s) = log s @ [e]" "heap (logs e s) = heap s" "ldb (logs e s) = ldb s"
  "documents (logs e s) = documents s" "sockets (logs e s) = sockets s"
  "persistence (logs e s) = persistence s" "next_ref (logs e s) = next_ref s"
  by (simp_all add: logs_def)

lemma update_doc_fields:
  "log (update_doc d f s) = log s" "ldb (update_doc d f s) = ldb s"
  "documents (update_doc d f s) = documents s" "sockets (update_doc d f s) = sockets s"
  "persistence (update_doc d f s) = persistence s" "next_ref (update_doc d f s) = next_ref s"
  by (simp_all add: update_doc_def)

lemma map_of_update_doc:
  "map_of (heap (update_doc d f s)) d' =
     (if d' = d then map_option f (map_of (heap s) d) else map_of (heap s) d')"
  by (simp add: update_doc_def map_of_map_entry split: option.splits)

lemma storeUpdate_fields:
  "heap (storeUpdate nm u s) = heap s" "documents (storeUpdate nm u s) = documents s"
  "log (storeUpdate nm u s) = log s" "persistence (storeUpdate nm u s) = persistence s"
  "sockets (storeUpdate nm u s) = sockets s" "next_ref (storeUpdate nm u s) = next_ref s"
  by (simp_all add: storeUpdate_def)

lemma stored_updates_storeUpdate:
  "stored_updates nm' (storeUpdate nm u s) =
     (if nm' = nm then stored_updates nm s @ [u] else stored_updates nm' s)"
  by (simp add: stored_updates_def storeUpdate_def update_conv')

lemma stored_updates_cong: "ldb s = ldb t \<Longrightarrow> stored_updates nm s = stored_updates nm t"
  by (simp add: stored_updates_def)

lemma Document_onUpdateDoc_fields:
  "heap (Document_onUpdateDoc d u s) = heap s"
  "documents (Document_onUpdateDoc d u s) = documents s"
  "ldb (Document_onUpdateDoc d u s) = ldb s"
  "persistence (Document_onUpdateDoc d u s) = persistence s"
  "sockets (Document_onUpdateDoc d u s) = sockets s"
  "next_ref (Document_onUpdateDoc d u s) = next_ref s"
  by (simp_all add: Document_onUpdateDoc_def logs_def Let_def split: option.splits outcome.splits)

lemma run_update_handler_fields:
  "heap (run_update_handler d u h s) = heap s"
  "documents (run_update_handler d u h s) = documents s"
  "persistence (run_update_handler d u h s) = persistence s"
  "next_ref (run_update_handler d u h s) = next_ref s"
  by (cases h; simp add: Document_onUpdateDoc_fields storeUpdate_fields)+

lemma fold_handlers_fields:
  "heap (fold (run_update_handler d u) hs s) = heap s \<and>
   documents (fold (run_update_handler d u) hs s) = documents s \<and>
   persistence (fold (run_update_handler d u) hs s) = persistence s \<and>
   next_ref (fold (run_update_handler d u) hs s) = next_ref s"
  by (induction hs arbitrary: s) (simp_all add: run_update_handler_fields)

lemma fire_update_fields:
  "heap (fire_update d u s) = heap s" "documents (fire_update d u s) = documents s"
  "persistence (fire_update d u s) = persistence s" "next_ref (fire_update d u s) = next_ref s"
  by (simp_all add: fire_update_def fold_handlers_fields split: option.splits)

lemma doc_applyUpdate_fields:
  "documents (doc_applyUpdate Y d u s) = documents s"
  "persistence (doc_applyUpdate Y d u s) = persistence s"
  "next_ref (doc_applyUpdate Y d u s) = next_ref s"
  by (simp_all add: doc_applyUpdate_def Let_def case_prod_beta fire_update_fields
      update_doc_fields split: option.splits)

lemma heap_doc_applyUpdate:
  "heap (doc_applyUpdate Y d u s) =
     (case map_of (heap s) d of
        None \<Rightarrow> heap s
      | Some this \<Rightarrow>
          heap (update_doc d (\<lambda>x. x\<lparr>content := fst (applyUpdate Y (content this) u)\<rparr>) s))"
  by (simp add: doc_applyUpdate_def Let_def case_prod_beta fire_update_fields
      split: option.splits)

lemma bindState_fields:
  "documents (bindState Y nm d s) = documents s"
  "persistence (bindState Y nm d s) = persistence s"
  "next_ref (bindState Y nm d s) = next_ref s"
  by (simp_all add: bindState_def Let_def update_doc_fields doc_applyUpdate_fields
      storeUpdate_fields split: option.splits)

lemma new_Document_fields:
  "documents (snd (new_Document Y nm nsp lo cbs s)) = documents s"
  "persistence (snd (new_Document Y nm nsp lo cbs s)) = persistence s"
  "fst (new_Document Y nm nsp lo cbs s) = next_ref s"
  by (simp_all add: new_Document_def)

subsection \<open>Callbacks that throw\<close>

lemma onUpdateDoc_throw:
  assumes "map_of (heap s) d = Some this" "callbacks this = Some cbs"
    "onUpdate cbs = Some f" "f u = Throws e"
  shows "log (Document_onUpdateDoc d u s) =
     log s @ [Called_onUpdate (name this) u, Console_warn e,
       (if (case localOnly this of Some v \<Rightarrow> truthy v | None \<Rightarrow> False)
        then Nsp_local_emit_sync_update (namespace this) u
        else Nsp_emit_sync_update (namespace this) u)]"
  using assms by (simp add: Document_onUpdateDoc_def logs_def split: option.splits)

lemma onUpdateAwareness_throw:
  assumes "map_of (heap s) d = Some this" "callbacks this = Some cbs"
    "onChangeAwareness cbs = Some g"
    "g (encodeAwarenessUpdate (awareness this) (a @ up @ r)) = Throws e"
  shows "log (Document_onUpdateAwareness d a up r s) =
     log s @
       [Called_onChangeAwareness (name this)
          (encodeAwarenessUpdate (awareness this) (a @ up @ r)),
        Console_warn e,
        Nsp_emit_awareness_update (namespace this)
          (encodeAwarenessUpdate (awareness this) (a @ up @ r))]"
  using assms by (simp add: Document_onUpdateAwareness_def logs_def Let_def)

lemma destroy_throw:
  assumes "map_of (heap s) d = Some this" "callbacks this = Some cbs"
    "onDestroy cbs = Some h" "h (name this) = Throws e"
  shows "log (Document_destroy d s) =
     log s @ [Called_onDestroy (name this), Console_warn e,
              Nsp_disconnectSockets (namespace this)] \<and>
     map_of (heap (Document_destroy d s)) d =
       Some (this\<lparr>awareness_observed := False, update_observers := [], destroyed := True\<rparr>)"
  using assms
  by (simp add: Document_destroy_def Let_def logs_fields update_doc_fields map_of_update_doc)

text \<open>
  C9. When a callback of a document throws, the document logs the error and goes on:
  after a throwing \<^verbatim>\<open>onUpdate\<close> the update is still sent to the namespace as \<^verbatim>\<open>sync-update\<close>
  (to its local sockets when \<^verbatim>\<open>localOnly\<close> is truthy), after a throwing
  \<^verbatim>\<open>onChangeAwareness\<close> the awareness update is still sent as \<^verbatim>\<open>awareness-update\<close>, and after
  a throwing \<^verbatim>\<open>onDestroy\<close> the document still detaches its listeners, disconnects the
  namespace's sockets and is destroyed.
\<close>

theorem throwing_callbacks_do_not_abort:
  assumes "map_of (heap s) d = Some this" and "callbacks this = Some cbs"
  shows
    "(onUpdate cbs = Some f \<and> f u = Throws e \<longrightarrow>
        log (Document_onUpdateDoc d u s) =
          log s @ [Called_onUpdate (name this) u, Console_warn e,
            (if (case localOnly this of Some v \<Rightarrow> truthy v | None \<Rightarrow> False)
             then Nsp_local_emit_sync_update (namespace this) u
             else Nsp_emit_sync_update (namespace this) u)]) \<and>
     (onChangeAwareness cbs = Some g \<and>
      g (encodeAwarenessUpdate (awareness this) (a @ up @ r)) = Throws e \<longrightarrow>
        log (Document_onUpdateAwareness d a up r s) =
          log s @
            [Called_onChangeAwareness (name this)
               (encodeAwarenessUpdate (awareness this) (a @ up @ r)),
             Console_warn e,
             Nsp_emit_awareness_update (namespace this)
               (encodeAwarenessUpdate (awareness this) (a @ up @ r))]) \<and>
     (onDestroy cbs = Some h \<and> h (name this) = Throws e \<longrightarrow>
        log (Document_destroy d s) =
          log s @ [Called_onDestroy (name this), Console_warn e,
                   Nsp_disconnectSockets (namespace this)] \<and>
        map_of (heap (Document_destroy d s)) d =
          Some (this\<lparr>awareness_observed := False, update_observers := [], destroyed := True\<rparr>))"
  using onUpdateDoc_throw [OF assms] onUpdateAwareness_throw [OF assms] destroy_throw [OF assms]
  by blast

lemma hooked_server_document:
  "map_of (heap hooked_server) 0 =
     Some \<lparr>name = ''R'', namespace = ''/yjs|R'', localOnly = None,
            callbacks = Some throwing_callbacks, gc = True, content = [], awareness = [],
            update_observers = [OnUpdateDoc], awareness_observed = True, destroyed = False\<rparr>"
  by (simp add: hooked_server_def new_Document_def new_YSocketIO_def gset_yjs_def)

theorem throwing_callbacks_do_not_abort_witness:
  "log (Document_onUpdateDoc 0 [5] hooked_server) =
     [Called_onUpdate ''R'' [5], Console_warn ''update failed'',
      Nsp_emit_sync_update ''/yjs|R'' [5]] \<and>
   log (Document_onUpdateAwareness 0 [3] [] [4] hooked_server) =
     [Called_onChangeAwareness ''R'' [(3, None), (4, None)], Console_warn ''awareness failed'',
      Nsp_emit_awareness_update ''/yjs|R'' [(3, None), (4, None)]] \<and>
   log (Document_destroy 0 hooked_server) =
     [Called_onDestroy ''R'', Console_warn ''destroy failed'',
      Nsp_disconnectSockets ''/yjs|R''] \<and>
   map_option destroyed (map_of (heap (Document_destroy 0 hooked_server)) 0) = Some True \<and>
   map_option update_observers (map_of (heap (Document_destroy 0 hooked_server)) 0) = Some []"
proof -
  have l: "log hooked_server = []"
    by (simp add: hooked_server_def new_Document_def new_YSocketIO_def)
  have c: "callbacks
      \<lparr>name = ''R'', namespace = ''/yjs|R'', localOnly = None,
       callbacks = Some throwing_callbacks, gc = True, content = ([] :: nat list),
       awareness = [], update_observers = [OnUpdateDoc], awareness_observed = True,
       destroyed = False\<rparr> = Some throwing_callbacks"
    by simp
  from throwing_callbacks_do_not_abort [OF hooked_server_document c,
      where f = "\<lambda>u. Throws ''update failed''" and u = "[5]" and e = "''update failed''"]
  have 1: "log (Document_onUpdateDoc 0 [5] hooked_server) =
     [Called_onUpdate ''R'' [5], Console_warn ''update failed'',
      Nsp_emit_sync_update ''/yjs|R'' [5]]"
    by (simp add: throwing_callbacks_def l)
  from throwing_callbacks_do_not_abort [OF hooked_server_document c,
      where g = "\<lambda>u. Throws ''awareness failed''" and a = "[3]" and up = "[]" and r = "[4]"
        and e = "''awareness failed''"]
  have 2: "log (Document_onUpdateAwareness 0 [3] [] [4] hooked_server) =
     [Called_onChangeAwareness ''R'' [(3, None), (4, None)], Console_warn ''awareness failed'',
      Nsp_emit_awareness_update ''/yjs|R'' [(3, None), (4, None)]]"
    by (simp add: throwing_callbacks_def l encodeAwarenessUpdate_def)
  from throwing_callbacks_do_not_abort [OF hooked_server_document c,
      where h = "\<lambda>n. Throws ''destroy failed''" and e = "''destroy failed''"]
  have 3: "log (Document_destroy 0 hooked_server) =
     [Called_onDestroy ''R'', Console_warn ''destroy failed'',
      Nsp_disconnectSockets ''/yjs|R''] \<and>
   map_option destroyed (map_of (heap (Document_destroy 0 hooked_server)) 0) = Some True \<and>
   map_option update_observers (map_of (heap (Document_destroy 0 hooked_server)) 0) = Some []"
    by (simp add: throwing_callbacks_def l)
  from 1 2 3 show ?thesis by blast
qed

subsection \<open>The last socket of a room disconnects\<close>

lemma Document_destroy_result:
  assumes "map_of (heap s) d = Some this"
  shows "map_of (heap (Document_destroy d s)) d =
           Some (this\<lparr>awareness_observed := False, update_observers := [], destroyed := True\<rparr>)"
    and "allSockets (namespace this) (Document_destroy d s) = []"
    and "\<exists>called. log (Document_destroy d s) =
           log s @ called @ [Nsp_disconnectSockets (namespace this)]"
  using assms
  by (simp_all add: Document_destroy_def Let_def logs_fields update_doc_fields map_of_update_doc
      allSockets_def update_conv' logs_def split: option.splits outcome.splits)

lemma on_socket_disconnect_persistent:
  assumes "persistence s" "allSockets nsp s = []" "map_of (heap s) d = Some this"
  shows "on_socket_disconnect nsp d s =
     Document_destroy d (logs (Persistence_writeState (name this))
        (logs (Emit_all_document_connections_closed d) s))"
  using assms by (simp add: on_socket_disconnect_def Let_def logs_fields)

lemma on_socket_disconnect_volatile:
  assumes "\<not> persistence s" "allSockets nsp s = []"
  shows "on_socket_disconnect nsp d s = logs (Emit_all_document_connections_closed d) s"
  using assms by (simp add: on_socket_disconnect_def Let_def logs_fields)

lemma last_disconnect:
  assumes "allSockets nsp s = []" "map_of (heap s) d = Some this"
  shows "(persistence s \<longrightarrow>
           map_of (heap (on_socket_disconnect nsp d s)) d =
             Some (this\<lparr>awareness_observed := False, update_observers := [], destroyed := True\<rparr>) \<and>
           allSockets (namespace this) (on_socket_disconnect nsp d s) = [] \<and>
           (\<exists>called. log (on_socket_disconnect nsp d s) =
              log s @ [Emit_all_document_connections_closed d, Persistence_writeState (name this)] @
                called @ [Nsp_disconnectSockets (namespace this)])) \<and>
         (\<not> persistence s \<longrightarrow>
           on_socket_disconnect nsp d s = logs (Emit_all_document_connections_closed d) s)"
proof (intro conjI impI)
  assume p: "persistence s"
  define s1 where
    "s1 = logs (Persistence_writeState (name this)) (logs (Emit_all_document_connections_closed d) s)"
  have eq: "on_socket_disconnect nsp d s = Document_destroy d s1"
    unfolding s1_def by (rule on_socket_disconnect_persistent [OF p assms])
  have h: "map_of (heap s1) d = Some this"
    by (simp add: s1_def logs_fields assms)
  show "map_of (heap (on_socket_disconnect nsp d s)) d =
          Some (this\<lparr>awareness_observed := False, update_observers := [], destroyed := True\<rparr>)"
    unfolding eq by (rule Document_destroy_result(1) [OF h])
  show "allSockets (namespace this) (on_socket_disconnect nsp d s) = []"
    unfolding eq by (rule Document_destroy_result(2) [OF h])
  from Document_destroy_result(3) [OF h] obtain called where
    "log (Document_destroy d s1) = log s1 @ called @ [Nsp_disconnectSockets (namespace this)]"
    by blast
  then have "log (on_socket_disconnect nsp d s) =
      log s @ [Emit_all_document_connections_closed d, Persistence_writeState (name this)] @
        called @ [Nsp_disconnectSockets (namespace this)]"
    by (simp add: eq s1_def logs_fields)
  then show "\<exists>called. log (on_socket_disconnect nsp d s) =
      log s @ [Emit_all_document_connections_closed d, Persistence_writeState (name this)] @
        called @ [Nsp_disconnectSockets (namespace this)]"
    by blast
next
  assume "\<not> persistence s"
  then show "on_socket_disconnect nsp d s = logs (Emit_all_document_connections_closed d) s"
    by (rule on_socket_disconnect_volatile [OF _ assms(1)])
qed

text \<open>
  C3, as the code has it. When the socket that leaves was the last of its namespace, the
  server emits \<^verbatim>\<open>all-document-connections-closed\<close>. With persistence it then calls
  \<^verbatim>\<open>writeState\<close> and destroys the document: the document stops listening to its awareness
  store and to its replica, the namespace's sockets are disconnected, and the replica is
  destroyed, in this order after the flush. Without persistence nothing else happens: the
  document stays as it was.
\<close>

theorem last_socket_leaves:
  assumes "removeAll sid (allSockets nsp s) = []"
    and "map_of (socket_docs s) sid = Some d"
    and "map_of (heap s) d = Some this"
  shows
    "(persistence s \<longrightarrow>
        map_of (heap (socket_leaves sid nsp s)) d =
          Some (this\<lparr>awareness_observed := False, update_observers := [], destroyed := True\<rparr>) \<and>
        allSockets (namespace this) (socket_leaves sid nsp s) = [] \<and>
        (\<exists>called. log (socket_leaves sid nsp s) =
           log s @ [Emit_all_document_connections_closed d, Persistence_writeState (name this)] @
             called @ [Nsp_disconnectSockets (namespace this)])) \<and>
     (\<not> persistence s \<longrightarrow>
        heap (socket_leaves sid nsp s) = heap s \<and>
        log (socket_leaves sid nsp s) = log s @ [Emit_all_document_connections_closed d])"
proof -
  define s1 where "s1 = s\<lparr>sockets := AList.update nsp (removeAll sid (allSockets nsp s)) (sockets s)\<rparr>"
  have s1: "allSockets nsp s1 = []" "map_of (heap s1) d = Some this" "log s1 = log s"
    "persistence s1 = persistence s" "heap s1 = heap s"
    using assms by (simp_all add: s1_def allSockets_def update_conv')
  have eq: "socket_leaves sid nsp s = on_socket_disconnect nsp d s1"
    using assms(2) by (simp add: socket_leaves_def Let_def s1_def)
  from last_disconnect [OF s1(1) s1(2)] s1(3) s1(4) s1(5) show ?thesis
    by (auto simp add: eq logs_fields)
qed

lemma durable_room_state:
  "allSockets ''/yjs|R'' durable_room = [1]" "map_of (socket_docs durable_room) 1 = Some 0"
  "persistence durable_room"
  "map_of (heap durable_room) 0 =
     Some \<lparr>name = ''R'', namespace = ''/yjs|R'', localOnly = Some JS_object, callbacks = None,
            gc = True, content = [1, 2, 3], awareness = [],
            update_observers = [OnUpdateDoc, Store_update ''R''], awareness_observed = True,
            destroyed = False\<rparr>"
  "log durable_room =
     [Nsp_local_emit_sync_update ''/yjs|R'' [1, 2, 3], Emit_document_loaded 0,
      Socket_sync_step_1 1 [1, 2, 3], Socket_awareness_update 1 []]"
  by (simp_all add: durable_room_def server_defs)

lemma durable_room_left:
  "log (socket_leaves 1 ''/yjs|R'' durable_room) =
     log durable_room @
       [Emit_all_document_connections_closed 0, Persistence_writeState ''R'',
        Nsp_disconnectSockets ''/yjs|R'']"
  by (simp add: durable_room_def server_defs)

theorem last_socket_leaves_witness:
  "removeAll 1 (allSockets ''/yjs|R'' durable_room) = [] \<and>
   map_of (socket_docs durable_room) 1 = Some 0 \<and>
   persistence durable_room \<and>
   map_option destroyed (map_of (heap (socket_leaves 1 ''/yjs|R'' durable_room)) 0) = Some True \<and>
   map_option update_observers (map_of (heap (socket_leaves 1 ''/yjs|R'' durable_room)) 0) =
     Some [] \<and>
   allSockets ''/yjs|R'' (socket_leaves 1 ''/yjs|R'' durable_room) = [] \<and>
   log (socket_leaves 1 ''/yjs|R'' durable_room) =
     log durable_room @
       [Emit_all_document_connections_closed 0, Persistence_writeState ''R'',
        Nsp_disconnectSockets ''/yjs|R'']"
proof -
  have a: "removeAll 1 (allSockets ''/yjs|R'' durable_room) = []"
    by (simp add: durable_room_state)
  from last_socket_leaves [OF a durable_room_state(2) durable_room_state(4)]
    durable_room_state(3)
  have "map_option destroyed (map_of (heap (socket_leaves 1 ''/yjs|R'' durable_room)) 0) = Some True \<and>
    map_option update_observers (map_of (heap (socket_leaves 1 ''/yjs|R'' durable_room)) 0) = Some [] \<and>
    allSockets ''/yjs|R'' (socket_leaves 1 ''/yjs|R'' durable_room) = []"
    by simp
  with a durable_room_state(2) durable_room_state(3) durable_room_left show ?thesis
    by blast
qed

text \<open>
  C3 fails as stated: on a server without persistence the last socket of the
  room \<open>R\<close> leaves, and the document of \<open>R\<close> is not destroyed, still listens to its replica
  and is still registered.
\<close>

theorem last_socket_leaves_without_persistence:
  "allSockets ''/yjs|R'' volatile_room = [1] \<and>
   allSockets ''/yjs|R'' (socket_leaves 1 ''/yjs|R'' volatile_room) = [] \<and>
   map_option destroyed (map_of (heap (socket_leaves 1 ''/yjs|R'' volatile_room)) 0) = Some False \<and>
   map_option update_observers (map_of (heap (socket_leaves 1 ''/yjs|R'' volatile_room)) 0) =
     Some [OnUpdateDoc] \<and>
   map_of (documents (socket_leaves 1 ''/yjs|R'' volatile_room)) ''R'' = Some 0"
  by (simp add: volatile_room_def server_defs)

text \<open>
  With persistence the document is destroyed, and it is still the instance registered for
  its room: the callbacks that \<^verbatim>\<open>initDocument\<close> writes, \<^verbatim>\<open>onDestroy\<close> among them, reach the
  constructor as \<^verbatim>\<open>localOnly\<close>, so nothing deletes the entry.
\<close>

lemma destroyed_document_stays_registered:
  "map_option destroyed (map_of (heap (socket_leaves 1 ''/yjs|R'' durable_room)) 0) = Some True \<and>
   map_of (documents (socket_leaves 1 ''/yjs|R'' durable_room)) ''R'' = Some 0 \<and>
   map_option callbacks (map_of (heap durable_room) 0) = Some None \<and>
   map_option localOnly (map_of (heap durable_room) 0) = Some (Some JS_object)"
  by (simp add: durable_room_def server_defs)

subsection \<open>Binding a document to the store\<close>

lemma fire_update_fresh:
  assumes "map_of (heap s) d = Some this" "update_observers this = [OnUpdateDoc]"
  shows "ldb (fire_update d u s) = ldb s"
  using assms by (simp add: fire_update_def Document_onUpdateDoc_fields)

lemma fire_update_bound:
  assumes "map_of (heap t) d = Some this"
    "update_observers this = [OnUpdateDoc, Store_update nm]"
  shows "stored_updates nm (fire_update d u t) = stored_updates nm t @ [u]"
  using assms
  by (simp add: fire_update_def stored_updates_storeUpdate
      stored_updates_cong [OF Document_onUpdateDoc_fields(3)])

lemma doc_applyUpdate_bound:
  assumes "map_of (heap t) d = Some this"
    "update_observers this = [OnUpdateDoc, Store_update nm]"
  shows "stored_updates nm (doc_applyUpdate Y d u t) =
     stored_updates nm t @
       (case snd (applyUpdate Y (content this) u) of Some u' \<Rightarrow> [u'] | None \<Rightarrow> [])"
proof -
  define t1 where "t1 = update_doc d (\<lambda>x. x\<lparr>content := fst (applyUpdate Y (content this) u)\<rparr>) t"
  have h: "map_of (heap t1) d = Some (this\<lparr>content := fst (applyUpdate Y (content this) u)\<rparr>)"
    by (simp add: t1_def map_of_update_doc assms(1))
  have l: "stored_updates nm t1 = stored_updates nm t"
    by (simp add: t1_def stored_updates_def update_doc_fields)
  have eq: "doc_applyUpdate Y d u t =
      (case snd (applyUpdate Y (content this) u) of Some u' \<Rightarrow> fire_update d u' t1 | None \<Rightarrow> t1)"
    unfolding t1_def by (simp add: doc_applyUpdate_def assms(1) case_prod_beta Let_def)
  show ?thesis
    unfolding eq using fire_update_bound [OF h, of nm] assms(2) l
    by (simp split: option.splits)
qed

lemma bindState_result:
  assumes "map_of (heap s) d = Some this" "update_observers this = [OnUpdateDoc]"
  shows "map_of (heap (bindState Y nm d s)) d =
           Some (this\<lparr>content := fst (applyUpdate Y (content this)
                                      (encodeStateAsUpdate Y (getYDoc Y nm s) None)),
                      update_observers := [OnUpdateDoc, Store_update nm]\<rparr>)"
    and "stored_updates nm (bindState Y nm d s) =
           stored_updates nm s @ [encodeStateAsUpdate Y (content this) None]"
proof -
  define s1 where "s1 = storeUpdate nm (encodeStateAsUpdate Y (content this) None) s"
  define upd where "upd = encodeStateAsUpdate Y (getYDoc Y nm s) None"
  define s1' where
    "s1' = update_doc d (\<lambda>x. x\<lparr>content := fst (applyUpdate Y (content this) upd)\<rparr>) s1"
  define s2 where "s2 = doc_applyUpdate Y d upd s1"
  have h1: "map_of (heap s1) d = Some this"
    by (simp add: s1_def storeUpdate_fields assms)
  have h1': "map_of (heap s1') d = Some (this\<lparr>content := fst (applyUpdate Y (content this) upd)\<rparr>)"
    by (simp add: s1'_def map_of_update_doc h1)
  have s2_eq: "s2 =
      (case snd (applyUpdate Y (content this) upd) of Some u' \<Rightarrow> fire_update d u' s1' | None \<Rightarrow> s1')"
    unfolding s2_def s1'_def by (simp add: doc_applyUpdate_def h1 case_prod_beta Let_def)
  have heap2: "heap s2 = heap s1'"
    by (simp add: s2_eq fire_update_fields split: option.splits)
  have ldb2: "ldb s2 = ldb s1"
    using fire_update_fresh [OF h1'] assms(2)
    by (auto simp add: s2_eq s1'_def update_doc_fields split: option.splits)
  have res: "bindState Y nm d s =
      update_doc d (\<lambda>x. x\<lparr>update_observers := update_observers x @ [Store_update nm]\<rparr>) s2"
    by (simp add: bindState_def assms(1) Let_def s2_def s1_def upd_def)
  show "map_of (heap (bindState Y nm d s)) d =
           Some (this\<lparr>content := fst (applyUpdate Y (content this)
                                      (encodeStateAsUpdate Y (getYDoc Y nm s) None)),
                      update_observers := [OnUpdateDoc, Store_update nm]\<rparr>)"
    by (simp add: res map_of_update_doc heap2 h1' assms(2) upd_def)
  have "stored_updates nm (bindState Y nm d s) = stored_updates nm s1"
    by (simp add: res stored_updates_def update_doc_fields ldb2)
  then show "stored_updates nm (bindState Y nm d s) =
           stored_updates nm s @ [encodeStateAsUpdate Y (content this) None]"
    by (simp add: s1_def stored_updates_storeUpdate)
qed

text \<open>
  C4. For a document as its constructor left its listeners, \<^verbatim>\<open>bindState\<close> under the name
  \<open>nm\<close> (a) replays the updates stored for \<open>nm\<close>, (b) applies the replayed state to the
  document's replica, (c) appends to the store what the replica held before, and (d)
  registers the hook as the last listener of the replica's \<^verbatim>\<open>update\<close> event; and whenever a
  document with these listeners takes an update, the store gets the update that the replica
  fires, appended under \<open>nm\<close>.
\<close>

theorem bindState_contract:
  assumes "map_of (heap s) d = Some this" and "update_observers this = [OnUpdateDoc]"
  shows
    "getYDoc Y nm s = fold (\<lambda>u x. fst (applyUpdate Y x u)) (stored_updates nm s) (newDoc Y) \<and>
     map_of (heap (bindState Y nm d s)) d =
       Some (this\<lparr>content := fst (applyUpdate Y (content this)
                                  (encodeStateAsUpdate Y (getYDoc Y nm s) None)),
                  update_observers := [OnUpdateDoc, Store_update nm]\<rparr>) \<and>
     stored_updates nm (bindState Y nm d s) =
       stored_updates nm s @ [encodeStateAsUpdate Y (content this) None] \<and>
     (map_of (heap t) d = Some bound \<and>
      update_observers bound = [OnUpdateDoc, Store_update nm] \<longrightarrow>
        stored_updates nm (doc_applyUpdate Y d u t) =
          stored_updates nm t @
            (case snd (applyUpdate Y (content bound) u) of Some u' \<Rightarrow> [u'] | None \<Rightarrow> []))"
  using bindState_result [OF assms, where Y = Y and nm = nm]
    doc_applyUpdate_bound [where t = t and d = d and this = bound and nm = nm and Y = Y and u = u]
  by (simp add: getYDoc_def)

lemma edited_document_state:
  "map_of (heap edited_document) 0 =
     Some \<lparr>name = ''R'', namespace = ''/yjs|R'', localOnly = Some JS_object, callbacks = None,
            gc = True, content = [9], awareness = [], update_observers = [OnUpdateDoc],
            awareness_observed = True, destroyed = False\<rparr>"
  "stored_updates ''R'' edited_document = [[1, 2], [3]]"
  by (simp_all add: edited_document_def server_defs)

lemma edited_document_bound:
  "map_of (heap (bindState gset_yjs ''R'' 0 edited_document)) 0 =
     Some \<lparr>name = ''R'', namespace = ''/yjs|R'', localOnly = Some JS_object, callbacks = None,
            gc = True, content = [9, 1, 2, 3], awareness = [],
            update_observers = [OnUpdateDoc, Store_update ''R''], awareness_observed = True,
            destroyed = False\<rparr>"
  by (simp add: edited_document_def server_defs)

theorem bindState_contract_witness:
  "getYDoc gset_yjs ''R'' edited_document = [1, 2, 3] \<and>
   map_option content (map_of (heap (bindState gset_yjs ''R'' 0 edited_document)) 0) =
     Some [9, 1, 2, 3] \<and>
   map_option update_observers (map_of (heap (bindState gset_yjs ''R'' 0 edited_document)) 0) =
     Some [OnUpdateDoc, Store_update ''R''] \<and>
   stored_updates ''R'' (bindState gset_yjs ''R'' 0 edited_document) = [[1, 2], [3], [9]] \<and>
   stored_updates ''R''
       (doc_applyUpdate gset_yjs 0 [4, 1] (bindState gset_yjs ''R'' 0 edited_document)) =
     [[1, 2], [3], [9], [4]]"
proof -
  let ?fresh = "\<lparr>name = ''R'', namespace = ''/yjs|R'', localOnly = Some JS_object,
       callbacks = (None :: nat list callbacks option), gc = True, content = [9 :: nat],
       awareness = [], update_observers = [OnUpdateDoc], awareness_observed = True,
       destroyed = False\<rparr>"
  let ?bound = "\<lparr>name = ''R'', namespace = ''/yjs|R'', localOnly = Some JS_object,
       callbacks = (None :: nat list callbacks option), gc = True, content = [9, 1, 2, 3 :: nat],
       awareness = [], update_observers = [OnUpdateDoc, Store_update ''R''],
       awareness_observed = True, destroyed = False\<rparr>"
  have o: "update_observers ?fresh = [OnUpdateDoc]"
    by simp
  have r: "getYDoc gset_yjs ''R'' edited_document = [1, 2, 3]"
    by (simp add: edited_document_def server_defs)
  have a: "applyUpdate gset_yjs [9, 1, 2, 3] [4, 1] = ([9, 1, 2, 3, 4], Some [4])"
    "encodeStateAsUpdate gset_yjs [9] None = [9]"
    by (simp_all add: gset_yjs_def Let_def)
  have "stored_updates ''R'' (bindState gset_yjs ''R'' 0 edited_document) =
          stored_updates ''R'' edited_document @ [encodeStateAsUpdate gset_yjs (content ?fresh) None] \<and>
        (map_of (heap (bindState gset_yjs ''R'' 0 edited_document)) 0 = Some ?bound \<and>
         update_observers ?bound = [OnUpdateDoc, Store_update ''R''] \<longrightarrow>
           stored_updates ''R''
               (doc_applyUpdate gset_yjs 0 [4, 1] (bindState gset_yjs ''R'' 0 edited_document)) =
             stored_updates ''R'' (bindState gset_yjs ''R'' 0 edited_document) @
               (case snd (applyUpdate gset_yjs (content ?bound) [4, 1]) of
                  Some u' \<Rightarrow> [u'] | None \<Rightarrow> []))"
    using bindState_contract [OF edited_document_state(1) o] by blast
  with edited_document_bound edited_document_state(2) r a show ?thesis
    by simp
qed

subsection \<open>Creating the document of a room\<close>

lemma initDocument_registered:
  assumes "map_of (documents s) nm = Some d"
  shows "initDocument Y nm nsp g s =
           (d, update_doc d (\<lambda>x. x\<lparr>gc := (case g of Some b \<Rightarrow> b | None \<Rightarrow> True)\<rparr>) s)"
  using assms by (simp add: initDocument_def Let_def update_doc_fields)

lemma map_entry_id:
  "(\<And>v. map_of xs k = Some v \<Longrightarrow> f v = v) \<Longrightarrow> AList.map_entry k f xs = xs"
  by (induction xs) auto

lemma update_doc_id:
  assumes "\<And>x. map_of (heap s) d = Some x \<Longrightarrow> f x = x"
  shows "update_doc d f s = s"
  using map_entry_id [of "heap s" d f] assms by (simp add: update_doc_def)

lemma length_map_entry: "length (AList.map_entry k f xs) = length xs"
  by (induction xs) auto

lemma length_heap_update_doc: "length (heap (update_doc d f s)) = length (heap s)"
  by (simp add: update_doc_def length_map_entry)

lemma gc_doc_applyUpdate:
  "map_option gc (map_of (heap (doc_applyUpdate Y d u s)) d') = map_option gc (map_of (heap s) d')"
  by (simp add: heap_doc_applyUpdate map_of_update_doc option.map_comp o_def split: option.splits)

lemma gc_bindState:
  "map_option gc (map_of (heap (bindState Y nm d s)) d') = map_option gc (map_of (heap s) d')"
proof (cases "map_of (heap s) d")
  case None
  then show ?thesis by (simp add: bindState_def)
next
  case (Some this)
  define s2 where "s2 = doc_applyUpdate Y d (encodeStateAsUpdate Y (getYDoc Y nm s) None)
      (storeUpdate nm (encodeStateAsUpdate Y (content this) None) s)"
  have "bindState Y nm d s =
      update_doc d (\<lambda>x. x\<lparr>update_observers := update_observers x @ [Store_update nm]\<rparr>) s2"
    by (simp add: bindState_def Some Let_def s2_def)
  moreover have "map_option gc (map_of (heap s2) d') = map_option gc (map_of (heap s) d')"
    by (simp add: s2_def gc_doc_applyUpdate storeUpdate_fields)
  ultimately show ?thesis
    by (auto simp add: map_of_update_doc option.map_comp o_def)
qed

lemma initDocument_registers:
  "map_of (documents (snd (initDocument Y nm nsp g s))) nm = Some (fst (initDocument Y nm nsp g s))"
  by (simp add: initDocument_def Let_def case_prod_beta update_doc_fields logs_fields update_conv'
      new_Document_fields split: option.splits)

lemma initDocument_sets_gc:
  "map_option gc (map_of (heap (snd (initDocument Y nm nsp g s))) (fst (initDocument Y nm nsp g s))) =
   map_option (\<lambda>_. case g of Some b \<Rightarrow> b | None \<Rightarrow> True)
     (map_of (heap (snd (initDocument Y nm nsp g s))) (fst (initDocument Y nm nsp g s)))"
proof (cases "map_of (documents s) nm")
  case (Some d)
  then show ?thesis
    by (simp add: initDocument_registered map_of_update_doc option.map_comp o_def)
next
  case None
  define b where "b = (case g of Some b \<Rightarrow> b | None \<Rightarrow> True)"
  define d where "d = next_ref s"
  define s2 where
    "s2 = update_doc d (\<lambda>x. x\<lparr>gc := b\<rparr>) (snd (new_Document Y nm nsp (Some JS_object) None s))"
  define s3 where "s3 = (if persistence s2 then bindState Y nm d s2 else s2)"
  have res: "initDocument Y nm nsp g s =
      (d, logs (Emit_document_loaded d) (s3\<lparr>documents := AList.update nm d (documents s3)\<rparr>))"
    unfolding s3_def s2_def d_def b_def
    by (simp add: initDocument_def None Let_def case_prod_beta update_doc_fields new_Document_fields)
  have g2: "map_option gc (map_of (heap s2) d) = map_option (\<lambda>_. b) (map_of (heap s2) d)"
    by (simp add: s2_def map_of_update_doc option.map_comp o_def)
  have g3: "map_option gc (map_of (heap s3) d) = map_option gc (map_of (heap s2) d)"
    by (simp add: s3_def gc_bindState)
  have "map_option gc (map_of (heap s3) d) = map_option (\<lambda>_. b) (map_of (heap s3) d)"
    using g2 g3 by (cases "map_of (heap s3) d"; cases "map_of (heap s2) d"; simp)
  then show ?thesis
    by (simp add: res logs_fields b_def)
qed

text \<open>A second call right after a first returns the first's instance and changes nothing.\<close>

lemma initDocument_twice:
  "initDocument Y nm nsp g (snd (initDocument Y nm nsp g s)) = initDocument Y nm nsp g s"
proof -
  define d where "d = fst (initDocument Y nm nsp g s)"
  define s' where "s' = snd (initDocument Y nm nsp g s)"
  define b where "b = (case g of Some b \<Rightarrow> b | None \<Rightarrow> True)"
  have reg: "map_of (documents s') nm = Some d"
    by (simp add: s'_def d_def initDocument_registers)
  have gc: "map_option gc (map_of (heap s') d) = map_option (\<lambda>_. b) (map_of (heap s') d)"
    unfolding s'_def d_def b_def by (rule initDocument_sets_gc)
  have "update_doc d (\<lambda>x. x\<lparr>gc := b\<rparr>) s' = s'"
  proof (rule update_doc_id)
    fix x assume "map_of (heap s') d = Some x"
    with gc have "gc x = b" by simp
    then show "x\<lparr>gc := b\<rparr> = x" by simp
  qed
  then have "initDocument Y nm nsp g s' = (d, s')"
    using initDocument_registered [OF reg, of Y nsp g] by (simp add: b_def)
  then show ?thesis by (simp add: s'_def d_def)
qed

text \<open>A task that runs alone does what \<open>initDocument\<close> does.\<close>

lemma init_step_alone:
  "(init_step Y ^^ 7) (s, Called nm nsp g) =
     (snd (initDocument Y nm nsp g s), Returned (fst (initDocument Y nm nsp g s)))"
  by (simp add: eval_nat_numeral initDocument_def bindState_def Let_def case_prod_beta
      update_doc_fields new_Document_fields map_of_update_doc logs_def
      split: option.splits)

text \<open>Whatever the tasks and their schedule, a step writes the registry by \<^verbatim>\<open>set\<close> only.\<close>

lemma init_step_documents:
  "documents (fst (init_step Y (s, t))) = documents s \<or>
   (\<exists>nm d. documents (fst (init_step Y (s, t))) = AList.update nm d (documents s))"
  by (cases t)
    (auto simp add: Let_def case_prod_beta update_doc_fields new_Document_fields logs_fields
      storeUpdate_fields doc_applyUpdate_fields split: option.splits)

lemma init_step_distinct:
  assumes "distinct (map fst (documents s))"
  shows "distinct (map fst (documents (fst (init_step Y (s, t)))))"
  using init_step_documents [of Y s t] assms by (auto simp add: distinct_update)

lemma run_schedule_distinct:
  "distinct (map fst (documents s)) \<Longrightarrow>
   distinct (map fst (documents (fst (run_schedule Y sched (s, ts)))))"
proof (induction sched arbitrary: s ts)
  case Nil
  then show ?case by simp
next
  case (Cons i sched)
  show ?case
  proof (cases "i < length ts")
    case True
    obtain s' t' where st: "init_step Y (s, ts ! i) = (s', t')"
      by force
    with init_step_distinct [OF Cons.prems, of Y "ts ! i"]
    have "distinct (map fst (documents s'))" by simp
    from Cons.IH [OF this] True st show ?thesis by simp
  next
    case False
    with Cons show ?thesis by simp
  qed
qed

lemma distinct_keys_at_most_one:
  "distinct (map fst xs) \<Longrightarrow> length (filter (\<lambda>e. fst e = k) xs) \<le> 1"
proof (induction xs)
  case Nil
  then show ?case by simp
next
  case (Cons x xs)
  show ?case
  proof (cases "fst x = k")
    case True
    with Cons.prems have "k \<notin> fst ` set xs" by auto
    then have "filter (\<lambda>e. fst e = k) xs = []"
      by (auto simp add: filter_empty_conv)
    with True show ?thesis by simp
  next
    case False
    with Cons show ?thesis by simp
  qed
qed

text \<open>Calls one after the other, and calls that overlap.\<close>

lemma run_schedule_append:
  "run_schedule Y (a @ b) st = run_schedule Y b (run_schedule Y a st)"
proof (induction a arbitrary: st)
  case Nil
  then show ?case by simp
next
  case (Cons i a)
  obtain s ts where st: "st = (s, ts)"
    by (cases st)
  show ?case
    unfolding st by (simp add: Cons case_prod_beta Let_def)
qed

lemma run_schedule_replicate:
  "i < length ts \<Longrightarrow>
   run_schedule Y (replicate n i) (s, ts) =
     (fst ((init_step Y ^^ n) (s, ts ! i)), ts[i := snd ((init_step Y ^^ n) (s, ts ! i))])"
proof (induction n arbitrary: s ts)
  case 0
  then show ?case by simp
next
  case (Suc n)
  obtain s' t' where st: "init_step Y (s, ts ! i) = (s', t')"
    by force
  have "run_schedule Y (replicate (Suc n) i) (s, ts) =
      run_schedule Y (replicate n i) (s', ts[i := t'])"
    using Suc.prems st by simp
  also have "\<dots> =
      (fst ((init_step Y ^^ n) (s', t')), ts[i := snd ((init_step Y ^^ n) (s', t'))])"
    using Suc.IH [of "ts[i := t']" s'] Suc.prems by simp
  finally show ?case
    by (simp add: funpow_swap1 st)
qed

lemma sequential_arrivals:
  "run_schedule Y one_after_the_other (s, [Called nm nsp g, Called nm nsp g]) =
     (snd (initDocument Y nm nsp g s),
      [Returned (fst (initDocument Y nm nsp g s)), Returned (fst (initDocument Y nm nsp g s))])"
  by (simp add: one_after_the_other_def run_schedule_append run_schedule_replicate
      init_step_alone initDocument_twice)

lemma init_step_held:
  assumes "found_nothing t"
  shows "found_nothing (snd (init_step Y (s, t))) \<and>
         next_ref s \<le> next_ref (fst (init_step Y (s, t))) \<and>
         (case held t of
            Some d \<Rightarrow> held (snd (init_step Y (s, t))) = Some d \<and>
                      next_ref (fst (init_step Y (s, t))) = next_ref s
          | None \<Rightarrow> held (snd (init_step Y (s, t))) = Some (next_ref s) \<and>
                    next_ref (fst (init_step Y (s, t))) = Suc (next_ref s))"
  using assms
  by (cases t)
    (auto simp add: Let_def case_prod_beta update_doc_fields new_Document_def logs_fields
      storeUpdate_fields doc_applyUpdate_fields split: option.splits)

lemma apart_step0:
  assumes "apart n0 s t0 t1"
  shows "apart n0 (fst (init_step Y (s, t0))) (snd (init_step Y (s, t0))) t1"
  using assms init_step_held [of t0 Y s]
  by (auto simp add: apart_def split: option.splits)

lemma apart_step1:
  assumes "apart n0 s t0 t1"
  shows "apart n0 (fst (init_step Y (s, t1))) t0 (snd (init_step Y (s, t1)))"
  using assms init_step_held [of t1 Y s]
  by (auto simp add: apart_def split: option.splits)

lemma run_schedule_apart:
  "apart n0 s t0 t1 \<Longrightarrow>
   \<exists>s' t0' t1'. run_schedule Y sched (s, [t0, t1]) = (s', [t0', t1']) \<and> apart n0 s' t0' t1'"
proof (induction sched arbitrary: s t0 t1)
  case Nil
  then show ?case by simp
next
  case (Cons i sched)
  consider "i = 0" | "i = 1" | "i \<ge> 2"
    by linarith
  then show ?case
  proof cases
    case 1
    from Cons.IH [OF apart_step0 [OF Cons.prems, of Y]] 1 show ?thesis
      by (simp add: case_prod_beta)
  next
    case 2
    from Cons.IH [OF apart_step1 [OF Cons.prems, of Y]] 2 show ?thesis
      by (simp add: case_prod_beta)
  next
    case 3
    with Cons.IH [OF Cons.prems] show ?thesis by simp
  qed
qed

text \<open>
  Two calls for an unregistered name that have both looked the name up before either goes
  on: whatever the schedule from there, when both have returned, each has an instance made
  by its own call, and the two differ.
\<close>

lemma overlapping_arrivals_differ:
  assumes "map_of (documents s) nm = None"
    and "snd (run_schedule Y (0 # 1 # sched) (s, [Called nm nsp g, Called nm nsp' g'])) =
           [Returned d0, Returned d1]"
  shows "d0 \<noteq> d1 \<and> next_ref s \<le> d0 \<and> next_ref s \<le> d1"
proof -
  let ?t0 = "Await_get None nm nsp (case g of Some b \<Rightarrow> b | None \<Rightarrow> True)"
  let ?t1 = "Await_get None nm nsp' (case g' of Some b \<Rightarrow> b | None \<Rightarrow> True)"
  have start: "run_schedule Y (0 # 1 # sched) (s, [Called nm nsp g, Called nm nsp' g']) =
      run_schedule Y sched (s, [?t0, ?t1])"
    using assms(1) by simp
  have "apart (next_ref s) s ?t0 ?t1"
    by (simp add: apart_def)
  from run_schedule_apart [OF this, of Y sched] obtain s' t0' t1' where
    r: "run_schedule Y sched (s, [?t0, ?t1]) = (s', [t0', t1'])"
    and a: "apart (next_ref s) s' t0' t1'"
    by blast
  from assms(2) start r have "t0' = Returned d0" "t1' = Returned d1"
    by simp_all
  with a show ?thesis
    by (simp add: apart_def)
qed

text \<open>
  C2, as the code has it. When a document is registered under the name, \<^verbatim>\<open>initDocument\<close>
  returns that instance and leaves the server as it was but for the instance's \<^verbatim>\<open>gc\<close> flag,
  which it assigns: no instance is made, nothing is stored or bound, the registry and the
  log are as before. So a call right after another returns the same instance and changes
  nothing, and two calls of which the second starts when the first has returned end with
  the same instance and the state that one call leaves. Creation is not serialized: two
  calls for an unregistered name that have both looked the name up before either goes on
  return two different instances, each made by its own call, whatever the schedule from
  there. The registry, when it holds one instance per name, holds at most one instance for
  a name after any schedule.
\<close>

theorem initDocument_idempotent_unless_overlapping:
  "(map_of (documents s) nm = Some d \<longrightarrow>
      initDocument Y nm nsp g s =
        (d, update_doc d (\<lambda>x. x\<lparr>gc := (case g of Some b \<Rightarrow> b | None \<Rightarrow> True)\<rparr>) s) \<and>
      next_ref (snd (initDocument Y nm nsp g s)) = next_ref s \<and>
      length (heap (snd (initDocument Y nm nsp g s))) = length (heap s) \<and>
      ldb (snd (initDocument Y nm nsp g s)) = ldb s \<and>
      documents (snd (initDocument Y nm nsp g s)) = documents s \<and>
      log (snd (initDocument Y nm nsp g s)) = log s) \<and>
   initDocument Y nm nsp g (snd (initDocument Y nm nsp g s)) = initDocument Y nm nsp g s \<and>
   run_schedule Y one_after_the_other (s, [Called nm nsp g, Called nm nsp g]) =
     (snd (initDocument Y nm nsp g s),
      [Returned (fst (initDocument Y nm nsp g s)), Returned (fst (initDocument Y nm nsp g s))]) \<and>
   (map_of (documents s1) nm = None \<and>
    snd (run_schedule Y (0 # 1 # sched1) (s1, [Called nm nsp g, Called nm nsp' g'])) =
      [Returned d0, Returned d1] \<longrightarrow>
      d0 \<noteq> d1 \<and> next_ref s1 \<le> d0 \<and> next_ref s1 \<le> d1) \<and>
   (distinct (map fst (documents s0)) \<longrightarrow>
      length (filter (\<lambda>e. fst e = nm) (documents (fst (run_schedule Y sched (s0, ts))))) \<le> 1)"
proof (intro conjI impI)
  assume r: "map_of (documents s) nm = Some d"
  show "initDocument Y nm nsp g s =
        (d, update_doc d (\<lambda>x. x\<lparr>gc := (case g of Some b \<Rightarrow> b | None \<Rightarrow> True)\<rparr>) s)"
    by (rule initDocument_registered [OF r])
  show "next_ref (snd (initDocument Y nm nsp g s)) = next_ref s"
    "ldb (snd (initDocument Y nm nsp g s)) = ldb s"
    "documents (snd (initDocument Y nm nsp g s)) = documents s"
    "log (snd (initDocument Y nm nsp g s)) = log s"
    by (simp_all add: initDocument_registered [OF r] update_doc_fields)
  show "length (heap (snd (initDocument Y nm nsp g s))) = length (heap s)"
    by (simp add: initDocument_registered [OF r] length_heap_update_doc)
next
  show "initDocument Y nm nsp g (snd (initDocument Y nm nsp g s)) = initDocument Y nm nsp g s"
    by (rule initDocument_twice)
next
  show "run_schedule Y one_after_the_other (s, [Called nm nsp g, Called nm nsp g]) =
     (snd (initDocument Y nm nsp g s),
      [Returned (fst (initDocument Y nm nsp g s)), Returned (fst (initDocument Y nm nsp g s))])"
    by (rule sequential_arrivals)
next
  assume a: "map_of (documents s1) nm = None \<and>
    snd (run_schedule Y (0 # 1 # sched1) (s1, [Called nm nsp g, Called nm nsp' g'])) =
      [Returned d0, Returned d1]"
  then have a1: "map_of (documents s1) nm = None"
    and a2: "snd (run_schedule Y (0 # 1 # sched1) (s1, [Called nm nsp g, Called nm nsp' g'])) =
      [Returned d0, Returned d1]"
    by blast+
  from overlapping_arrivals_differ [OF a1 a2]
  show "d0 \<noteq> d1" "next_ref s1 \<le> d0" "next_ref s1 \<le> d1"
    by blast+
next
  assume "distinct (map fst (documents s0))"
  then show "length (filter (\<lambda>e. fst e = nm) (documents (fst (run_schedule Y sched (s0, ts))))) \<le> 1"
    by (intro distinct_keys_at_most_one run_schedule_distinct)
qed

lemma volatile_room_state:
  "map_of (documents volatile_room) ''R'' = Some 0" "documents volatile_room = [(''R'', 0)]"
  "next_ref volatile_room = 1"
  by (simp_all add: volatile_room_def server_defs)

lemma two_arrivals_state:
  "map_of (documents (fst two_arrivals)) ''R'' = None"
  "distinct (map fst (documents (fst two_arrivals)))"
  "next_ref (fst two_arrivals) = 0"
  "two_arrivals = (fst two_arrivals, [Called ''R'' ''/yjs|R'' None, Called ''R'' ''/yjs|R'' None])"
  "fst (initDocument gset_yjs ''R'' ''/yjs|R'' None (fst two_arrivals)) = 0"
  "documents (snd (initDocument gset_yjs ''R'' ''/yjs|R'' None (fst two_arrivals))) = [(''R'', 0)]"
  by (simp_all add: two_arrivals_def server_defs)

lemma two_arrivals_taking_turns:
  "snd (run_schedule gset_yjs (0 # 1 # drop 2 taking_turns)
          (fst two_arrivals, [Called ''R'' ''/yjs|R'' None, Called ''R'' ''/yjs|R'' None])) =
     [Returned 0, Returned 1]"
  by (simp add: two_arrivals_def taking_turns_def server_defs)

theorem initDocument_idempotent_unless_overlapping_witness:
  "map_of (documents volatile_room) ''R'' = Some 0 \<and>
   fst (initDocument gset_yjs ''R'' ''/yjs|R'' None volatile_room) = 0 \<and>
   next_ref (snd (initDocument gset_yjs ''R'' ''/yjs|R'' None volatile_room)) = 1 \<and>
   documents (snd (initDocument gset_yjs ''R'' ''/yjs|R'' None volatile_room)) = [(''R'', 0)] \<and>
   log (snd (initDocument gset_yjs ''R'' ''/yjs|R'' None volatile_room)) = log volatile_room \<and>
   snd (run_schedule gset_yjs one_after_the_other two_arrivals) = [Returned 0, Returned 0] \<and>
   documents (fst (run_schedule gset_yjs one_after_the_other two_arrivals)) = [(''R'', 0)] \<and>
   map_of (documents (fst two_arrivals)) ''R'' = None \<and>
   snd (run_schedule gset_yjs (0 # 1 # drop 2 taking_turns)
          (fst two_arrivals, [Called ''R'' ''/yjs|R'' None, Called ''R'' ''/yjs|R'' None])) =
     [Returned 0, Returned 1] \<and>
   (0 :: nat) \<noteq> 1 \<and>
   distinct (map fst (documents (fst two_arrivals))) \<and>
   length (filter (\<lambda>e. fst e = ''R'')
     (documents (fst (run_schedule gset_yjs taking_turns
        (fst two_arrivals, snd two_arrivals))))) \<le> 1"
proof -
  from initDocument_idempotent_unless_overlapping [where s = volatile_room and nm = "''R''"
      and d = 0 and Y = gset_yjs and nsp = "''/yjs|R''" and g = None
      and ?s0.0 = "fst two_arrivals" and sched = taking_turns and ts = "snd two_arrivals"
      and ?s1.0 = "fst two_arrivals" and ?sched1.0 = "drop 2 taking_turns"
      and nsp' = "''/yjs|R''" and g' = None and ?d0.0 = 0 and ?d1.0 = 1]
    volatile_room_state two_arrivals_state(1) two_arrivals_state(2) two_arrivals_taking_turns
  have 1: "fst (initDocument gset_yjs ''R'' ''/yjs|R'' None volatile_room) = 0 \<and>
    next_ref (snd (initDocument gset_yjs ''R'' ''/yjs|R'' None volatile_room)) = 1 \<and>
    documents (snd (initDocument gset_yjs ''R'' ''/yjs|R'' None volatile_room)) = [(''R'', 0)] \<and>
    log (snd (initDocument gset_yjs ''R'' ''/yjs|R'' None volatile_room)) = log volatile_room \<and>
    (0 :: nat) \<noteq> 1 \<and>
    length (filter (\<lambda>e. fst e = ''R'')
      (documents (fst (run_schedule gset_yjs taking_turns
         (fst two_arrivals, snd two_arrivals))))) \<le> 1"
    by (simp add: update_doc_fields)
  from initDocument_idempotent_unless_overlapping [where s = "fst two_arrivals"
      and nm = "''R''" and Y = gset_yjs and nsp = "''/yjs|R''" and g = None]
  have "run_schedule gset_yjs one_after_the_other
          (fst two_arrivals, [Called ''R'' ''/yjs|R'' None, Called ''R'' ''/yjs|R'' None]) =
     (snd (initDocument gset_yjs ''R'' ''/yjs|R'' None (fst two_arrivals)),
      [Returned (fst (initDocument gset_yjs ''R'' ''/yjs|R'' None (fst two_arrivals))),
       Returned (fst (initDocument gset_yjs ''R'' ''/yjs|R'' None (fst two_arrivals)))])"
    by blast
  with two_arrivals_state(4) two_arrivals_state(5) two_arrivals_state(6)
  have 2: "snd (run_schedule gset_yjs one_after_the_other two_arrivals) = [Returned 0, Returned 0] \<and>
    documents (fst (run_schedule gset_yjs one_after_the_other two_arrivals)) = [(''R'', 0)]"
    by simp
  from 1 2 volatile_room_state(1) two_arrivals_state(1) two_arrivals_state(2)
    two_arrivals_taking_turns
  show ?thesis
    by blast
qed

text \<open>
  C2 fails as stated: two calls for the new room \<open>R\<close> that take turns at every \<^verbatim>\<open>await\<close>
  each make an instance, bind it to the store, register it and announce it, and each
  returns its own. After eleven steps the registry holds the first instance for \<open>R\<close>, at the
  end it holds the second.
\<close>

theorem overlapping_first_arrivals_make_two_instances:
  "snd (run_schedule gset_yjs taking_turns two_arrivals) = [Returned 0, Returned 1] \<and>
   documents (fst (run_schedule gset_yjs first_eleven_turns two_arrivals)) = [(''R'', 0)] \<and>
   documents (fst (run_schedule gset_yjs taking_turns two_arrivals)) = [(''R'', 1)] \<and>
   map fst (heap (fst (run_schedule gset_yjs taking_turns two_arrivals))) = [0, 1] \<and>
   map (\<lambda>e. update_observers (snd e)) (heap (fst (run_schedule gset_yjs taking_turns two_arrivals))) =
     [[OnUpdateDoc, Store_update ''R''], [OnUpdateDoc, Store_update ''R'']] \<and>
   stored_updates ''R'' (fst (run_schedule gset_yjs taking_turns two_arrivals)) = [[], []] \<and>
   log (fst (run_schedule gset_yjs taking_turns two_arrivals)) =
     [Emit_document_loaded 0, Emit_document_loaded 1]"
  by (simp add: two_arrivals_def taking_turns_def first_eleven_turns_def server_defs)

subsection \<open>Authentication\<close>

text \<open>
  C5. When the authentication callback resolves to false, the middleware calls \<^verbatim>\<open>next\<close>
  with the error \<^verbatim>\<open>Unauthorized\<close>; the connection attempt leaves the server as it was, the
  provider emits \<^verbatim>\<open>connection-error\<close> with that error and nothing else, so it emits no
  status \<^verbatim>\<open>connected\<close>.
\<close>

theorem rejected_join_is_a_connection_error:
  assumes "authenticate s = Some f" and "f handshake = Resolves False"
  shows
    "auth_middleware s handshake = Next_error ''Unauthorized'' \<and>
     connection_attempt Y sid nsp handshake (s, p) =
       (s, p\<lparr>out := out p @ [Emit_connection_error ''Unauthorized'']\<rparr>) \<and>
     Emit_status Connected \<notin>
       set (drop (length (out p)) (out (snd (connection_attempt Y sid nsp handshake (s, p)))))"
  using assms
  by (simp add: auth_middleware_def connection_attempt_def onSocketConnectionError_def emit_def)

theorem rejected_join_is_a_connection_error_witness:
  "authenticate guarded_server = Some (\<lambda>handshake. Resolves (handshake = ''valid-token'')) \<and>
   auth_middleware guarded_server ''bad-token'' = Next_error ''Unauthorized'' \<and>
   fst (connection_attempt gset_yjs 1 ''/yjs|R'' ''bad-token''
          (guarded_server, new_provider gset_yjs [] 7 True None (- 1) True None False)) =
     guarded_server \<and>
   out (snd (connection_attempt gset_yjs 1 ''/yjs|R'' ''bad-token''
          (guarded_server, new_provider gset_yjs [] 7 True None (- 1) True None False))) =
     [Emit_status Connecting, Socket_connect, Emit_connection_error ''Unauthorized'']"
proof -
  have a: "authenticate guarded_server = Some (\<lambda>handshake. Resolves (handshake = ''valid-token''))"
    by (simp add: guarded_server_def new_YSocketIO_def)
  have b: "(\<lambda>handshake. Resolves (handshake = ''valid-token'')) ''bad-token'' = Resolves False"
    by simp
  have c: "out (new_provider gset_yjs [] 7 True None (- 1) True None False) =
      [Emit_status Connecting, Socket_connect]"
    by (simp add: client_defs)
  from rejected_join_is_a_connection_error [OF a b, of gset_yjs 1 "''/yjs|R''"
      "new_provider gset_yjs [] 7 True None (- 1) True None False"] a c
  show ?thesis
    by simp
qed

end
